theory Spec2Isabelle
  imports Complex_Main "HOL-Library.Word"
begin

section \<open>JavaScript strings\<close>

text \<open>
  A JavaScript string is a sequence of UTF-16 code units; \<open>length\<close>, \<open>substring\<close> and
  \<open>trim\<close> all count code units. The ASCII literals of \<open>main.js\<close> are written with
  \<open>lit\<close>.
\<close>

type_synonym jschar = "16 word"
type_synonym jsstring = "jschar list"

definition lit :: "string \<Rightarrow> jsstring" where
  "lit s = map of_char s"

text \<open>
  \<open>String.prototype.trim\<close> removes the code units of WhiteSpace and LineTerminator
  (ECMAScript 12.2, 12.3) from both ends; all of them lie in the Basic Multilingual Plane.
\<close>

definition isWhiteSpace :: "jschar \<Rightarrow> bool" where
  "isWhiteSpace c \<longleftrightarrow>
     c = 0x0009 \<or> c = 0x000A \<or> c = 0x000B \<or> c = 0x000C \<or> c = 0x000D \<or> c = 0x0020 \<or>
     c = 0x00A0 \<or> c = 0x1680 \<or> (0x2000 \<le> c \<and> c \<le> 0x200A) \<or> c = 0x2028 \<or>
     c = 0x2029 \<or> c = 0x202F \<or> c = 0x205F \<or> c = 0x3000 \<or> c = 0xFEFF"

definition trim :: "jsstring \<Rightarrow> jsstring" where
  "trim s = rev (dropWhile isWhiteSpace (rev (dropWhile isWhiteSpace s)))"

text \<open>\<open>Array.prototype.join(sep)\<close> on an array of strings.\<close>

fun join :: "jsstring \<Rightarrow> jsstring list \<Rightarrow> jsstring" where
  "join sep [] = []"
| "join sep [x] = x"
| "join sep (x # y # ys) = x @ sep @ join sep (y # ys)"

text \<open>
  \<open>encodeURIComponent\<close> throws a URIError exactly when its argument holds a surrogate
  code unit that is not part of a pair (ECMAScript 19.2.6.5, Encode).
\<close>

definition isLeadSurrogate :: "jschar \<Rightarrow> bool" where
  "isLeadSurrogate c \<longleftrightarrow> 0xD800 \<le> c \<and> c \<le> 0xDBFF"

definition isTrailSurrogate :: "jschar \<Rightarrow> bool" where
  "isTrailSurrogate c \<longleftrightarrow> 0xDC00 \<le> c \<and> c \<le> 0xDFFF"

fun wellFormed :: "jsstring \<Rightarrow> bool" where
  "wellFormed [] = True"
| "wellFormed [c] = (\<not> isLeadSurrogate c \<and> \<not> isTrailSurrogate c)"
| "wellFormed (c # d # cs) =
     (if isLeadSurrogate c then isTrailSurrogate d \<and> wellFormed cs
      else \<not> isTrailSurrogate c \<and> wellFormed (d # cs))"

section \<open>Values parsed from JSON\<close>

text \<open>
  What \<open>response.json()\<close> resolves to. A number is given by its (finite) value; an
  object keeps its members in source order, and a repeated key reads as its last
  occurrence. A JavaScript value that may also be \<open>undefined\<close> is a \<open>json option\<close>.
\<close>

datatype json =
    JNull
  | JBool bool
  | JNum rat
  | JStr jsstring
  | JArr "json list"
  | JObj "(jsstring \<times> json) list"

datatype error =
    TypeError       \<comment> \<open>property read of null or undefined, call of a non-function\<close>
  | URIError        \<comment> \<open>\<open>encodeURIComponent\<close> on a lone surrogate\<close>
  | NetworkError    \<comment> \<open>\<open>fetch\<close> rejected\<close>
  | JsonError       \<comment> \<open>\<open>response.json()\<close> rejected\<close>
  | PdfError        \<comment> \<open>a promise of pdf.js rejected\<close>
  | Thrown jsstring \<comment> \<open>\<open>throw new Error(message)\<close>\<close>

fun truthy :: "json option \<Rightarrow> bool" where
  "truthy None = False"
| "truthy (Some JNull) = False"
| "truthy (Some (JBool b)) = b"
| "truthy (Some (JNum r)) = (r \<noteq> 0)"
| "truthy (Some (JStr s)) = (s \<noteq> [])"
| "truthy (Some (JArr xs)) = True"
| "truthy (Some (JObj kvs)) = True"

text \<open>
  Reading the member \<open>k\<close> of a value that is neither null nor undefined. The names read in
  \<open>main.js\<close> (\<open>insights\<close>, \<open>key_insights\<close>, \<open>did_you_know\<close>, \<open>counterpoints\<close>,
  \<open>connections\<close>, \<open>text\<close>, \<open>meta\<close>, \<open>page\<close>, \<open>score\<close>, \<open>script\<close>, \<open>text_content\<close>,
  \<open>title\<close>, \<open>documents\<close>, \<open>id\<close>) are not members of any prototype, so only an object's own
  members answer.
\<close>

fun member :: "json \<Rightarrow> jsstring \<Rightarrow> json option" where
  "member (JObj kvs) k = map_of (rev kvs) k"
| "member v k = None"

text \<open>\<open>v.k\<close>: a TypeError on null and undefined.\<close>

fun getProp :: "json option \<Rightarrow> jsstring \<Rightarrow> error + json option" where
  "getProp None k = Inl TypeError"
| "getProp (Some JNull) k = Inl TypeError"
| "getProp (Some v) k = Inr (member v k)"

text \<open>\<open>v?.k\<close>: undefined on null and undefined.\<close>

fun getOptProp :: "json option \<Rightarrow> jsstring \<Rightarrow> json option" where
  "getOptProp None k = None"
| "getOptProp (Some JNull) k = None"
| "getOptProp (Some v) k = member v k"

section \<open>The outside world\<close>

text \<open>
  A document opened by pdf.js: its page count and, for each page number, the \<open>str\<close> of
  the text items of that page (\<open>None\<close> when \<open>getPage\<close> or \<open>getTextContent\<close> rejects).
\<close>

record pdf =
  numPages :: nat
  getPage :: "nat \<Rightarrow> jsstring list option"

text \<open>The requests \<open>main.js\<close> sends to the backend with \<open>fetch\<close>.\<close>

datatype request =
    GetDocuments                        \<comment> \<open>\<open>GET /api/documents\<close>\<close>
  | PostInsights jsstring jsstring      \<comment> \<open>\<open>POST /api/insights/{docId}\<close>, form field \<open>section_text\<close>\<close>
  | GetRelated jsstring jsstring nat    \<comment> \<open>\<open>GET /api/related?doc_id=..&text=..&k=..\<close>\<close>
  | PostPodcast jsstring jsstring       \<comment> \<open>\<open>POST /api/podcast/{docId}\<close>, form field \<open>section_text\<close>\<close>
  | DeleteDocument jsstring             \<comment> \<open>\<open>DELETE /api/documents/{docId}\<close>\<close>

record response =
  ok :: bool
  body :: "json option"   \<comment> \<open>\<open>None\<close>: \<open>response.json()\<close> rejects\<close>

text \<open>
  Everything the script asks of its surroundings: pdf.js, the backend, the user's answer
  to \<open>confirm\<close>, and the number conversions of the JavaScript engine, whose
  floating-point results are taken as given.
\<close>

record env =
  getDocument :: "jsstring \<Rightarrow> pdf option"       \<comment> \<open>\<open>None\<close>: the loading task rejects\<close>
  fetch :: "request \<Rightarrow> response option"         \<comment> \<open>\<open>None\<close>: \<open>fetch\<close> rejects\<close>
  confirm :: "jsstring \<Rightarrow> bool"
  numberToString :: "rat \<Rightarrow> jsstring"            \<comment> \<open>\<open>String(n)\<close>\<close>
  toFixed :: "rat \<Rightarrow> nat \<Rightarrow> jsstring"             \<comment> \<open>\<open>n.toFixed(d)\<close>\<close>
  stringToNumber :: "jsstring \<Rightarrow> rat option"     \<comment> \<open>\<open>Number(s)\<close>, \<open>None\<close> for NaN\<close>

section \<open>Effects\<close>

datatype container =
    Loading | DocumentsSection | DocumentView | InsightsContainer | PodcastContainer
  | RelatedSections

record card =
  highlight :: jsstring   \<comment> \<open>argument of \<open>highlightSection\<close> in \<open>onclick\<close>\<close>
  page :: jsstring        \<comment> \<open>after \<open>Page \<close>\<close>
  preview :: jsstring     \<comment> \<open>the paragraph\<close>
  score :: jsstring       \<comment> \<open>after \<open>Score: \<close>\<close>

text \<open>
  What is put on the page. Markup and styling are left out; each constructor keeps the
  texts that the template interpolates, in the order of the template.
\<close>

datatype view =
    NoInsightsGenerated
  | Insights "jsstring list" "jsstring list" "jsstring list" "jsstring list"
  | QuickInsightsModal jsstring "jsstring list" "jsstring list"
  | NoRelatedSections
  | RelatedCards "card list"
  | PodcastPreview jsstring
  | DocumentsGrid "json list"

datatype event =
    SetDisplay container bool
  | Alert jsstring
  | AlertFailure jsstring error          \<comment> \<open>\<open>alert(prefix + error.message)\<close>\<close>
  | ConsoleError jsstring error
  | OpenPdf jsstring                     \<comment> \<open>\<open>pdfjsLib.getDocument(url)\<close>\<close>
  | ReadPage nat                         \<comment> \<open>\<open>pdf.getPage(n)\<close> and \<open>page.getTextContent()\<close>\<close>
  | Fetch request
  | Render view
  | SetViewerSrc jsstring
  | SetTitle "json option"               \<comment> \<open>the value assigned to \<open>textContent\<close>\<close>
  | Confirm jsstring

definition showLoading :: "bool \<Rightarrow> event list" where
  "showLoading show = [SetDisplay Loading show]"

section \<open>Text extraction\<close>

definition pageSeparator :: jsstring where
  "pageSeparator = [0x0A, 0x0A]"

definition pdfUrl :: "jsstring \<Rightarrow> jsstring" where
  "pdfUrl docId = lit ''/api/pdf/'' @ docId"

definition pageTextOf :: "jsstring list \<Rightarrow> jsstring" where
  "pageTextOf items = join (lit '' '') items"

text \<open>
  The loop of \<open>extractSampleTextFromPDF\<close>, entered at \<open>pageNum\<close> with the text
  accumulated so far. It returns the pages it asked for and either the error that left the
  \<open>try\<close> block or the text at the end of the loop.
\<close>

function sampleLoop :: "pdf \<Rightarrow> nat \<Rightarrow> nat \<Rightarrow> jsstring \<Rightarrow> event list \<times> (error + jsstring)" where
  "sampleLoop pdf samplePages pageNum sampleText =
     (if pageNum \<le> samplePages then
        (case getPage pdf pageNum of
           None \<Rightarrow> ([ReadPage pageNum], Inl PdfError)
         | Some items \<Rightarrow>
             (let sampleText' = sampleText @ pageTextOf items @ pageSeparator in
              if length sampleText' > 1000
              then ([ReadPage pageNum], Inr (take 1000 sampleText' @ lit ''...''))
              else (let (evs, r) = sampleLoop pdf samplePages (pageNum + 1) sampleText'
                    in (ReadPage pageNum # evs, r))))
      else ([], Inr sampleText))"
  by pat_completeness auto
termination
  by (relation "measure (\<lambda>(pdf, samplePages, pageNum, sampleText). Suc samplePages - pageNum)") auto

definition sampleFallback :: jsstring where
  "sampleFallback = lit ''Document content analysis for quick insights.''"

text \<open>The \<open>try\<close> block of \<open>extractSampleTextFromPDF\<close>.\<close>

definition sampleTry :: "env \<Rightarrow> jsstring \<Rightarrow> event list \<times> (error + jsstring)" where
  "sampleTry e docId =
     (case getDocument e (pdfUrl docId) of
        None \<Rightarrow> ([OpenPdf (pdfUrl docId)], Inl PdfError)
      | Some pdf \<Rightarrow>
          (let samplePages = min (numPages pdf) 3;
               (evs, r) = sampleLoop pdf samplePages 1 []
           in (OpenPdf (pdfUrl docId) # evs, map_sum id trim r)))"

definition extractSampleTextFromPDF :: "env \<Rightarrow> jsstring \<Rightarrow> event list \<times> jsstring" where
  "extractSampleTextFromPDF e docId =
     (case sampleTry e docId of
        (evs, Inl err) \<Rightarrow>
          (evs @ [ConsoleError (lit ''PDF sample extraction failed:'') err], sampleFallback)
      | (evs, Inr sampleText) \<Rightarrow> (evs, sampleText))"

function fullLoop :: "pdf \<Rightarrow> nat \<Rightarrow> nat \<Rightarrow> jsstring \<Rightarrow> event list \<times> (error + jsstring)" where
  "fullLoop pdf maxPages pageNum fullText =
     (if pageNum \<le> maxPages then
        (case getPage pdf pageNum of
           None \<Rightarrow> ([ReadPage pageNum], Inl PdfError)
         | Some items \<Rightarrow>
             (let (evs, r) = fullLoop pdf maxPages (pageNum + 1)
                               (fullText @ pageTextOf items @ pageSeparator)
              in (ReadPage pageNum # evs, r)))
      else ([], Inr fullText))"
  by pat_completeness auto
termination
  by (relation "measure (\<lambda>(pdf, maxPages, pageNum, fullText). Suc maxPages - pageNum)") auto

definition fullFallback :: jsstring where
  "fullFallback =
     lit ''Document content analysis. This PDF contains valuable information for review.''"

text \<open>The \<open>try\<close> block of \<open>extractTextFromPDF\<close>.\<close>

definition fullTry :: "env \<Rightarrow> jsstring \<Rightarrow> event list \<times> (error + jsstring)" where
  "fullTry e docId =
     (case getDocument e (pdfUrl docId) of
        None \<Rightarrow> ([OpenPdf (pdfUrl docId)], Inl PdfError)
      | Some pdf \<Rightarrow>
          (let maxPages = min (numPages pdf) 10;
               (evs, r) = fullLoop pdf maxPages 1 []
           in (OpenPdf (pdfUrl docId) # evs, map_sum id trim r)))"

definition extractTextFromPDF :: "env \<Rightarrow> jsstring \<Rightarrow> event list \<times> jsstring" where
  "extractTextFromPDF e docId =
     (case fullTry e docId of
        (evs, Inl err) \<Rightarrow>
          (evs @ [ConsoleError (lit ''PDF text extraction failed:'') err], fullFallback)
      | (evs, Inr fullText) \<Rightarrow> (evs, fullText))"

section \<open>Conversions and small operators of the language\<close>

text \<open>Sequencing of steps that may throw: the first error leaves the block.\<close>

definition andThen :: "error + 'a \<Rightarrow> ('a \<Rightarrow> error + 'b) \<Rightarrow> error + 'b" where
  "andThen r f = (case r of Inl err \<Rightarrow> Inl err | Inr x \<Rightarrow> f x)"

text \<open>\<open>a || b\<close>.\<close>

definition orElse :: "json option \<Rightarrow> json option \<Rightarrow> json option" where
  "orElse a b = (if truthy a then a else b)"

text \<open>
  The string conversion applied by template literals, by \<open>textContent\<close> and by property
  keys. An array joins its elements with a comma, null elements as the empty string.
  (An object is taken not to carry a member named \<open>toString\<close> of its own, which would
  make the conversion throw; the wire format has no such member.)
\<close>

fun toStr :: "env \<Rightarrow> json \<Rightarrow> jsstring" where
  "toStr e JNull = lit ''null''"
| "toStr e (JBool b) = (if b then lit ''true'' else lit ''false'')"
| "toStr e (JNum r) = numberToString e r"
| "toStr e (JStr s) = s"
| "toStr e (JArr xs) = join (lit '','') (map (\<lambda>x. case x of JNull \<Rightarrow> [] | _ \<Rightarrow> toStr e x) xs)"
| "toStr e (JObj kvs) = lit ''[object Object]''"

definition toString :: "env \<Rightarrow> json option \<Rightarrow> jsstring" where
  "toString e v = (case v of None \<Rightarrow> lit ''undefined'' | Some j \<Rightarrow> toStr e j)"

text \<open>\<open>v > 0\<close>: the value is converted to a number, NaN compares false.\<close>

definition gtZero :: "env \<Rightarrow> json option \<Rightarrow> bool" where
  "gtZero e v =
     (case v of
        None \<Rightarrow> False
      | Some JNull \<Rightarrow> False
      | Some (JBool b) \<Rightarrow> b
      | Some (JNum r) \<Rightarrow> 0 < r
      | Some j \<Rightarrow> (case stringToNumber e (toStr e j) of None \<Rightarrow> False | Some r \<Rightarrow> 0 < r))"

text \<open>\<open>v.substring(0, n)\<close>: only a string has the method.\<close>

definition substring0 :: "json option \<Rightarrow> nat \<Rightarrow> error + jsstring" where
  "substring0 v n = (case v of Some (JStr s) \<Rightarrow> Inr (take n s) | _ \<Rightarrow> Inl TypeError)"

text \<open>
  \<open>escapeHtml\<close> returns markup that displays its argument as plain text (the empty string
  for a falsy argument); the model keeps the text displayed.
\<close>

definition escapeHtml :: "env \<Rightarrow> json option \<Rightarrow> jsstring" where
  "escapeHtml e text = (if \<not> truthy text then [] else toString e text)"

text \<open>\<open>v.map(i => `<li>${escapeHtml(i)}</li>`)\<close>: only an array has the method.\<close>

definition escapeItems :: "env \<Rightarrow> json option \<Rightarrow> error + jsstring list" where
  "escapeItems e v =
     (case v of
        Some (JArr xs) \<Rightarrow> Inr (map (\<lambda>i. escapeHtml e (Some i)) xs)
      | _ \<Rightarrow> Inl TypeError)"

section \<open>Insights\<close>

definition noKeyInsights :: "json option" where
  "noKeyInsights = Some (JArr [JStr (lit ''No key insights available'')])"

definition noFacts :: "json option" where
  "noFacts = Some (JArr [JStr (lit ''No additional facts available'')])"

definition noCounterpoints :: "json option" where
  "noCounterpoints = Some (JArr [JStr (lit ''No counterpoints available'')])"

definition noConnections :: "json option" where
  "noConnections = Some (JArr [JStr (lit ''No connections available'')])"

definition showQuickInsights :: "env \<Rightarrow> json \<Rightarrow> json option \<Rightarrow> error + event list" where
  "showQuickInsights e insights docTitle =
     andThen (getProp (Some insights) (lit ''insights'')) (\<lambda>ins.
       let keyInsights = orElse (getOptProp ins (lit ''key_insights'')) noKeyInsights;
           quickFacts = orElse (getOptProp ins (lit ''did_you_know'')) noFacts
       in andThen (escapeItems e keyInsights) (\<lambda>ks.
          andThen (escapeItems e quickFacts) (\<lambda>fs.
            Inr [Render (QuickInsightsModal (escapeHtml e docTitle) ks fs)])))"

definition displayInsights :: "env \<Rightarrow> json \<Rightarrow> error + event list" where
  "displayInsights e insights =
     andThen (getProp (Some insights) (lit ''insights'')) (\<lambda>ins.
       if \<not> truthy ins
       then Inr [Render NoInsightsGenerated, SetDisplay InsightsContainer True]
       else
         andThen (getProp ins (lit ''key_insights'')) (\<lambda>k.
         andThen (escapeItems e (orElse k noKeyInsights)) (\<lambda>ks.
         andThen (getProp ins (lit ''did_you_know'')) (\<lambda>d.
         andThen (escapeItems e (orElse d noFacts)) (\<lambda>ds.
         andThen (getProp ins (lit ''counterpoints'')) (\<lambda>c.
         andThen (escapeItems e (orElse c noCounterpoints)) (\<lambda>cs.
         andThen (getProp ins (lit ''connections'')) (\<lambda>n.
         andThen (escapeItems e (orElse n noConnections)) (\<lambda>ns.
           Inr [Render (Insights ks ds cs ns), SetDisplay InsightsContainer True])))))))))"

section \<open>Related sections\<close>

text \<open>\<open>section.score?.toFixed(2) || '0.00'\<close>: only a number has \<open>toFixed\<close>.\<close>

definition scoreText :: "env \<Rightarrow> json option \<Rightarrow> error + jsstring" where
  "scoreText e v =
     (case v of
        None \<Rightarrow> Inr (lit ''0.00'')
      | Some JNull \<Rightarrow> Inr (lit ''0.00'')
      | Some (JNum r) \<Rightarrow> Inr (if toFixed e r 2 \<noteq> [] then toFixed e r 2 else lit ''0.00'')
      | _ \<Rightarrow> Inl TypeError)"

text \<open>One card of the template in \<open>showRelatedSections\<close>, its interpolations in order.\<close>

definition relatedCard :: "env \<Rightarrow> json \<Rightarrow> error + card" where
  "relatedCard e section =
     andThen (getProp (Some section) (lit ''text'')) (\<lambda>t.
       let pg = orElse (getOptProp (member section (lit ''meta'')) (lit ''page''))
                  (Some (JStr (lit ''N/A'')))
       in andThen (substring0 t 100) (\<lambda>sub.
          andThen (scoreText e (member section (lit ''score''))) (\<lambda>sc.
            Inr \<lparr>highlight = toString e t, page = toString e pg,
                 preview = escapeHtml e (Some (JStr sub)) @ lit ''...'', score = sc\<rparr>)))"

fun relatedCards :: "env \<Rightarrow> json list \<Rightarrow> error + card list" where
  "relatedCards e [] = Inr []"
| "relatedCards e (section # rest) =
     andThen (relatedCard e section) (\<lambda>c.
     andThen (relatedCards e rest) (\<lambda>cs. Inr (c # cs)))"

text \<open>\<open>relatedSections.length\<close>: arrays and strings have a length, an object only its own member.\<close>

definition lengthPositive :: "env \<Rightarrow> json \<Rightarrow> bool" where
  "lengthPositive e v =
     (case v of
        JArr xs \<Rightarrow> 0 < length xs
      | JStr s \<Rightarrow> 0 < length s
      | JObj kvs \<Rightarrow> gtZero e (member v (lit ''length''))
      | _ \<Rightarrow> False)"

definition relatedContent :: "env \<Rightarrow> json \<Rightarrow> error + view" where
  "relatedContent e relatedSections =
     (if truthy (Some relatedSections) \<and> lengthPositive e relatedSections
      then (case relatedSections of
              JArr xs \<Rightarrow> andThen (relatedCards e xs) (\<lambda>cs. Inr (RelatedCards cs))
            | _ \<Rightarrow> Inl TypeError)
      else Inr NoRelatedSections)"

text \<open>The \<open>try\<close> block of \<open>showRelatedSections\<close>.\<close>

definition relatedTry :: "env \<Rightarrow> jsstring \<Rightarrow> jsstring \<Rightarrow> event list \<times> (error + unit)" where
  "relatedTry e docId text =
     (if \<not> wellFormed text then ([], Inl URIError)
      else
        (let req = GetRelated docId text 5 in
         case fetch e req of
           None \<Rightarrow> ([Fetch req], Inl NetworkError)
         | Some resp \<Rightarrow>
             (case body resp of
                None \<Rightarrow> ([Fetch req], Inl JsonError)
              | Some relatedSections \<Rightarrow>
                  (case relatedContent e relatedSections of
                     Inl err \<Rightarrow> ([Fetch req], Inl err)
                   | Inr v \<Rightarrow>
                       ([Fetch req, Render v, SetDisplay RelatedSections True], Inr ())))))"

definition showRelatedSections :: "env \<Rightarrow> jsstring \<Rightarrow> jsstring \<Rightarrow> event list" where
  "showRelatedSections e docId text =
     (if text = [] then []
      else
        (case relatedTry e docId text of
           (evs, Inl err) \<Rightarrow> evs @ [ConsoleError (lit ''Failed to load related sections:'') err]
         | (evs, Inr u) \<Rightarrow> evs))"

section \<open>Page state\<close>

text \<open>
  The module-level variables of \<open>main.js\<close>. \<open>None\<close> is \<open>null\<close>; \<open>documents_metadata\<close> is
  the object indexed by document identifier (identifiers are taken not to name a member
  of \<open>Object.prototype\<close>). \<open>currentDocumentText\<close> is declared and never assigned.
\<close>

record session =
  currentDocumentId :: "jsstring option"
  currentDocumentText :: "jsstring option"
  currentPodcastText :: "json option"
  documents_metadata :: "jsstring \<rightharpoonup> json"

definition viewDocument :: "session \<Rightarrow> jsstring \<Rightarrow> event list \<times> session" where
  "viewDocument s docId =
     ([SetDisplay DocumentsSection False, SetDisplay DocumentView True,
       SetViewerSrc (pdfUrl docId)]
      @ (case documents_metadata s docId of
           None \<Rightarrow> []
         | Some doc \<Rightarrow> if truthy (Some doc) then [SetTitle (member doc (lit ''title''))] else [])
      @ [SetDisplay InsightsContainer False, SetDisplay PodcastContainer False,
         SetDisplay RelatedSections False],
      s\<lparr>currentDocumentId := Some docId\<rparr>)"

definition goBack :: "session \<Rightarrow> event list \<times> session" where
  "goBack s =
     ([SetDisplay DocumentView False, SetDisplay DocumentsSection True,
       SetDisplay InsightsContainer False, SetDisplay PodcastContainer False,
       SetDisplay RelatedSections False],
      s\<lparr>currentDocumentId := None\<rparr>)"

section \<open>Document listing and deletion\<close>

text \<open>The \<open>reduce\<close> of \<open>loadDocuments\<close>: \<open>acc[doc.id] = doc\<close> for each document in turn.\<close>

fun indexDocuments ::
  "env \<Rightarrow> (jsstring \<rightharpoonup> json) \<Rightarrow> json list \<Rightarrow> error + (jsstring \<rightharpoonup> json)" where
  "indexDocuments e acc [] = Inr acc"
| "indexDocuments e acc (doc # docs) =
     andThen (getProp (Some doc) (lit ''id'')) (\<lambda>i.
       indexDocuments e (acc(toString e i \<mapsto> doc)) docs)"

text \<open>The \<open>try\<close> block of \<open>loadDocuments\<close>.\<close>

definition loadTry :: "env \<Rightarrow> session \<Rightarrow> (event list \<times> session) \<times> (error + unit)" where
  "loadTry e s =
     (case fetch e GetDocuments of
        None \<Rightarrow> (([Fetch GetDocuments], s), Inl NetworkError)
      | Some resp \<Rightarrow>
          (case body resp of
             None \<Rightarrow> (([Fetch GetDocuments], s), Inl JsonError)
           | Some data \<Rightarrow>
               (case getProp (Some data) (lit ''documents'') of
                  Inl err \<Rightarrow> (([Fetch GetDocuments], s), Inl err)
                | Inr (Some (JArr docs)) \<Rightarrow>
                    (case indexDocuments e Map.empty docs of
                       Inl err \<Rightarrow> (([Fetch GetDocuments], s), Inl err)
                     | Inr m \<Rightarrow>
                         (([Fetch GetDocuments, Render (DocumentsGrid docs)],
                           s\<lparr>documents_metadata := m\<rparr>), Inr ()))
                | Inr other \<Rightarrow> (([Fetch GetDocuments], s), Inl TypeError))))"

definition loadDocuments :: "env \<Rightarrow> session \<Rightarrow> event list \<times> session" where
  "loadDocuments e s =
     (case loadTry e s of
        ((evs, s'), Inl err) \<Rightarrow> (evs @ [ConsoleError (lit ''Failed to load documents:'') err], s')
      | ((evs, s'), Inr u) \<Rightarrow> (evs, s'))"

definition confirmDelete :: jsstring where
  "confirmDelete = lit ''Are you sure you want to delete this document?''"

text \<open>
  \<open>deleteDocument\<close>; the refresh it starts with \<open>loadDocuments()\<close> is followed to its end.
\<close>

definition deleteDocument :: "env \<Rightarrow> session \<Rightarrow> jsstring \<Rightarrow> event list \<times> session" where
  "deleteDocument e s docId =
     (if \<not> confirm e confirmDelete then ([Confirm confirmDelete], s)
      else
        (case fetch e (DeleteDocument docId) of
           None \<Rightarrow>
             ([Confirm confirmDelete, Fetch (DeleteDocument docId),
               AlertFailure (lit ''Delete failed: '') NetworkError], s)
         | Some resp \<Rightarrow>
             if ok resp then
               (let (evs, s') = loadDocuments e s
                in ([Confirm confirmDelete, Fetch (DeleteDocument docId),
                     Alert (lit ''Document deleted successfully'')] @ evs, s'))
             else
               ([Confirm confirmDelete, Fetch (DeleteDocument docId),
                 AlertFailure (lit ''Delete failed: '') (Thrown (lit ''Delete failed''))], s)))"

section \<open>The three operations\<close>

text \<open>The three messages shown when too little text was extracted.\<close>

definition notEnoughQuick :: jsstring where
  "notEnoughQuick = lit (''Could not extract enough text for quick analysis. '' @
                         ''Please view the document for full analysis.'')"

definition notEnoughFull :: jsstring where
  "notEnoughFull = lit (''Could not extract enough text from the PDF for analysis. '' @
                        ''Please try another document.'')"

definition notEnoughPodcast :: jsstring where
  "notEnoughPodcast = lit (''Not enough text extracted for podcast generation. '' @
                           ''Please try another document.'')"

text \<open>The \<open>try\<close> block of \<open>quickAnalyzeDocument\<close>.\<close>

definition quickTry :: "env \<Rightarrow> session \<Rightarrow> jsstring \<Rightarrow> event list \<times> (error + unit)" where
  "quickTry e s docId =
     (let (evs, sampleText) = extractSampleTextFromPDF e docId in
      if sampleText = [] \<or> length (trim sampleText) < 30 then
        (evs @ [Alert notEnoughQuick]
           @ showLoading False, Inr ())
      else
        (let req = PostInsights docId sampleText in
         case fetch e req of
           None \<Rightarrow> (evs @ [Fetch req], Inl NetworkError)
         | Some resp \<Rightarrow>
             (case body resp of
                None \<Rightarrow> (evs @ [Fetch req], Inl JsonError)
              | Some insights \<Rightarrow>
                  (case andThen (getProp (documents_metadata s docId) (lit ''title''))
                          (showQuickInsights e insights) of
                     Inl err \<Rightarrow> (evs @ [Fetch req], Inl err)
                   | Inr shown \<Rightarrow> (evs @ [Fetch req] @ shown, Inr ())))))"

definition quickAnalyzeDocument :: "env \<Rightarrow> session \<Rightarrow> jsstring \<Rightarrow> event list" where
  "quickAnalyzeDocument e s docId =
     showLoading True
     @ (case quickTry e s docId of
          (evs, Inl err) \<Rightarrow>
            evs @ [ConsoleError (lit ''Quick analysis failed:'') err,
                   AlertFailure (lit ''Quick analysis failed: '') err]
        | (evs, Inr u) \<Rightarrow> evs)
     @ showLoading False"

text \<open>The \<open>try\<close> block of \<open>analyzeDocument\<close>; \<open>specificText\<close> defaults to \<open>null\<close>.\<close>

definition analyzeTry :: "env \<Rightarrow> jsstring \<Rightarrow> jsstring option \<Rightarrow> event list \<times> (error + unit)" where
  "analyzeTry e docId specificText =
     (let (evs, textToAnalyze) =
            (case specificText of
               None \<Rightarrow> extractTextFromPDF e docId
             | Some t \<Rightarrow> if t = [] then extractTextFromPDF e docId else ([], t))
      in
      if textToAnalyze = [] \<or> length (trim textToAnalyze) < 50 then
        (evs @ [Alert notEnoughFull]
           @ showLoading False, Inr ())
      else
        (let req = PostInsights docId textToAnalyze in
         case fetch e req of
           None \<Rightarrow> (evs @ [Fetch req], Inl NetworkError)
         | Some resp \<Rightarrow>
             (case body resp of
                None \<Rightarrow> (evs @ [Fetch req], Inl JsonError)
              | Some insights \<Rightarrow>
                  (case displayInsights e insights of
                     Inl err \<Rightarrow> (evs @ [Fetch req], Inl err)
                   | Inr shown \<Rightarrow>
                       (evs @ [Fetch req] @ shown @ showRelatedSections e docId textToAnalyze,
                        Inr ())))))"

definition analyzeDocument :: "env \<Rightarrow> jsstring \<Rightarrow> jsstring option \<Rightarrow> event list" where
  "analyzeDocument e docId specificText =
     showLoading True
     @ (case analyzeTry e docId specificText of
          (evs, Inl err) \<Rightarrow>
            evs @ [ConsoleError (lit ''Analysis failed:'') err,
                   AlertFailure (lit ''Analysis failed: '') err]
        | (evs, Inr u) \<Rightarrow> evs)
     @ showLoading False"

definition analyzeFullDocument :: "env \<Rightarrow> session \<Rightarrow> event list" where
  "analyzeFullDocument e s =
     (case currentDocumentId s of
        None \<Rightarrow> []
      | Some docId \<Rightarrow> if docId = [] then [] else analyzeDocument e docId None)"

text \<open>
  The \<open>try\<close> block of \<open>generatePodcast\<close> for the open document \<open>docId\<close>; the session it
  returns holds the assignment to \<open>currentPodcastText\<close>, which is made before the preview
  is rendered.
\<close>

definition podcastTry ::
  "env \<Rightarrow> session \<Rightarrow> jsstring \<Rightarrow> (event list \<times> session) \<times> (error + unit)" where
  "podcastTry e s docId =
     (let (evs, pdfText) = extractTextFromPDF e docId in
      if pdfText = [] \<or> length (trim pdfText) < 100 then
        ((evs @ [Alert notEnoughPodcast]
            @ showLoading False, s), Inr ())
      else
        (let req = PostPodcast docId pdfText in
         case fetch e req of
           None \<Rightarrow> ((evs @ [Fetch req], s), Inl NetworkError)
         | Some resp \<Rightarrow>
             (case body resp of
                None \<Rightarrow> ((evs @ [Fetch req], s), Inl JsonError)
              | Some podcast \<Rightarrow>
                  (case getProp (Some podcast) (lit ''script'') of
                     Inl err \<Rightarrow> ((evs @ [Fetch req], s), Inl err)
                   | Inr script \<Rightarrow>
                       (let text = orElse (orElse script (member podcast (lit ''text_content'')))
                                     (Some (JStr pdfText));
                            s' = s\<lparr>currentPodcastText := text\<rparr>
                        in case substring0 text 500 of
                             Inl err \<Rightarrow> ((evs @ [Fetch req], s'), Inl err)
                           | Inr sub \<Rightarrow>
                               ((evs @ [Fetch req,
                                        Render (PodcastPreview
                                          (escapeHtml e (Some (JStr sub)) @ lit ''...'')),
                                        SetDisplay PodcastContainer True], s'), Inr ()))))))"

definition generatePodcast :: "env \<Rightarrow> session \<Rightarrow> event list \<times> session" where
  "generatePodcast e s =
     (case currentDocumentId s of
        None \<Rightarrow> ([], s)
      | Some docId \<Rightarrow>
          if docId = [] then ([], s)
          else
            (case podcastTry e s docId of
               ((evs, s'), Inl err) \<Rightarrow>
                 (showLoading True @ evs
                  @ [ConsoleError (lit ''Podcast generation failed:'') err,
                     AlertFailure (lit ''Podcast generation failed: '') err]
                  @ showLoading False, s')
             | ((evs, s'), Inr u) \<Rightarrow> (showLoading True @ evs @ showLoading False, s')))"

text \<open>The backend requests among the effects, in the order they were sent.\<close>

fun requests :: "event list \<Rightarrow> request list" where
  "requests [] = []"
| "requests (Fetch r # evs) = r # requests evs"
| "requests (ev # evs) = requests evs"

text \<open>The messages shown with \<open>alert\<close> (those of a caught error apart), in order.\<close>

fun alerts :: "event list \<Rightarrow> jsstring list" where
  "alerts [] = []"
| "alerts (Alert m # evs) = m # alerts evs"
| "alerts (ev # evs) = alerts evs"

text \<open>The errors reported to the user with \<open>alert\<close>, in order.\<close>

fun failures :: "event list \<Rightarrow> (jsstring \<times> error) list" where
  "failures [] = []"
| "failures (AlertFailure m err # evs) = (m, err) # failures evs"
| "failures (ev # evs) = failures evs"

text \<open>The pages asked of pdf.js among the effects, in the order they were read.\<close>

fun pagesRead :: "event list \<Rightarrow> nat list" where
  "pagesRead [] = []"
| "pagesRead (ReadPage n # evs) = n # pagesRead evs"
| "pagesRead (ev # evs) = pagesRead evs"

section \<open>The specification's wording of the extracted text\<close>

text \<open>
  The text of pages 1 to \<open>k\<close> as the specification words it: the fragments of each page
  joined by a single space, a blank-line separator after every page.
\<close>

definition pagePiece :: "pdf \<Rightarrow> nat \<Rightarrow> jsstring" where
  "pagePiece pdf n =
     (case getPage pdf n of
        None \<Rightarrow> []
      | Some items \<Rightarrow> join [0x20] items @ [0x0A, 0x0A])"

definition pagesText :: "pdf \<Rightarrow> nat \<Rightarrow> jsstring" where
  "pagesText pdf k = concat (map (pagePiece pdf) [1..<Suc k])"

definition ellipsis :: jsstring where
  "ellipsis = lit ''...''"

section \<open>The specification's wording of the wire format\<close>

text \<open>
  A field of an insight bundle as the specification describes it: omitted or null
  (\<open>None\<close>), or a sequence of strings.
\<close>

fun bundleField :: "json option \<Rightarrow> jsstring list option \<Rightarrow> bool" where
  "bundleField v None = (v = None \<or> v = Some JNull)"
| "bundleField v (Some items) = (v = Some (JArr (map JStr items)))"

text \<open>The field as rendered: its values, or the one-element placeholder sequence.\<close>

fun renderedField :: "jsstring list option \<Rightarrow> jsstring \<Rightarrow> jsstring list" where
  "renderedField None placeholder = [placeholder]"
| "renderedField (Some items) placeholder = items"

text \<open>
  An optional string member of a response: omitted or null, read as the empty string, or a
  string.
\<close>

definition optionalString :: "json option \<Rightarrow> jsstring \<Rightarrow> bool" where
  "optionalString v t \<longleftrightarrow>
     (v = None \<and> t = []) \<or> (v = Some JNull \<and> t = []) \<or> v = Some (JStr t)"

text \<open>
  A related section as the specification describes it: a text, and a page and a score
  that may each be omitted, null or a number. The page is read at \<open>meta.page\<close>.
\<close>

definition relatedSection :: "json \<Rightarrow> bool" where
  "relatedSection v \<longleftrightarrow>
     (case member v (lit ''text'') of Some (JStr t) \<Rightarrow> True | _ \<Rightarrow> False) \<and>
     (case getOptProp (member v (lit ''meta'')) (lit ''page'') of
        None \<Rightarrow> True | Some JNull \<Rightarrow> True | Some (JNum r) \<Rightarrow> True | _ \<Rightarrow> False) \<and>
     (case member v (lit ''score'') of
        None \<Rightarrow> True | Some JNull \<Rightarrow> True | Some (JNum r) \<Rightarrow> True | _ \<Rightarrow> False)"

definition sectionText :: "json \<Rightarrow> jsstring" where
  "sectionText v = (case member v (lit ''text'') of Some (JStr t) \<Rightarrow> t | _ \<Rightarrow> [])"

text \<open>A page or score that is omitted or null.\<close>

definition missing :: "json option \<Rightarrow> bool" where
  "missing v \<longleftrightarrow> v = None \<or> v = Some JNull"

text \<open>The three-way fallback chain of the podcast script: the first non-empty text wins.\<close>

definition firstNonEmpty :: "jsstring \<Rightarrow> jsstring \<Rightarrow> jsstring \<Rightarrow> jsstring" where
  "firstNonEmpty script text_content extracted =
     (if script \<noteq> [] then script
      else if text_content \<noteq> [] then text_content
      else extracted)"

section \<open>Example documents and backends\<close>

text \<open>A one-page memo of two text items, 120 code units when joined.\<close>

definition memo :: pdf where
  "memo =
     \<lparr>numPages = 1,
      getPage = (\<lambda>n. if n = 1
                     then Some [lit ''Quarterly revenue grew by twelve percent across all regions.'',
                                lit ''Costs stayed flat while the headcount rose by three people.'']
                     else None)\<rparr>"

text \<open>Twelve pages, each a single item of 600 letters.\<close>

definition longPages :: pdf where
  "longPages = \<lparr>numPages = 12, getPage = (\<lambda>n. Some [replicate 600 0x61])\<rparr>"

text \<open>Three pages, the second of which cannot be read.\<close>

definition torn :: pdf where
  "torn =
     \<lparr>numPages = 3,
      getPage = (\<lambda>n. if n = 2 then None else Some [lit ''Minutes of the meeting.''])\<rparr>"

text \<open>An insight response that carries key insights only.\<close>

definition growth :: json where
  "growth = JObj [(lit ''insights'', JObj [(lit ''key_insights'', JArr [JStr (lit ''Growth'')])])]"

text \<open>
  A desk with the three documents above under the identifiers \<open>memo\<close>, \<open>long\<close> and \<open>torn\<close>;
  every other identifier fails to open. The backend answers an insight request with a
  bundle that has key insights only, a podcast request with \<open>podcast\<close>, a deletion with
  success and a listing request with an empty listing; a related-sections request fails.
\<close>

definition desk :: "json \<Rightarrow> env" where
  "desk podcast =
     \<lparr>getDocument = (\<lambda>url. if url = pdfUrl (lit ''memo'') then Some memo
                           else if url = pdfUrl (lit ''long'') then Some longPages
                           else if url = pdfUrl (lit ''torn'') then Some torn
                           else None),
      fetch = (\<lambda>r. case r of
                      PostInsights d t \<Rightarrow> Some \<lparr>ok = True, body = Some growth\<rparr>
                    | PostPodcast d t \<Rightarrow> Some \<lparr>ok = True, body = Some podcast\<rparr>
                    | DeleteDocument d \<Rightarrow> Some \<lparr>ok = True, body = None\<rparr>
                    | GetDocuments \<Rightarrow>
                        Some \<lparr>ok = True, body = Some (JObj [(lit ''documents'', JArr [])])\<rparr>
                    | GetRelated d t k \<Rightarrow> None),
      confirm = (\<lambda>m. True),
      numberToString = (\<lambda>r. []),
      toFixed = (\<lambda>r d. []),
      stringToNumber = (\<lambda>t. None)\<rparr>"

text \<open>The text extracted from the memo.\<close>

definition memoText :: jsstring where
  "memoText = lit (''Quarterly revenue grew by twelve percent across all regions. '' @
                   ''Costs stayed flat while the headcount rose by three people.'')"

text \<open>An insight response with three of the four fields.\<close>

definition threeOfFour :: json where
  "threeOfFour =
     JObj [(lit ''insights'',
        JObj [(lit ''key_insights'', JArr [JStr (lit ''K'')]),
              (lit ''did_you_know'', JArr [JStr (lit ''D'')]),
              (lit ''counterpoints'', JArr [JStr (lit ''C'')])])]"

text \<open>A related section of 500 letters, without page and score.\<close>

definition bareSection :: json where
  "bareSection = JObj [(lit ''text'', JStr (replicate 500 0x61))]"

text \<open>A related section with a short text, an empty \<open>meta\<close> and a null score.\<close>

definition briefSection :: json where
  "briefSection =
     JObj [(lit ''text'', JStr (lit ''Brief'')), (lit ''meta'', JObj []), (lit ''score'', JNull)]"

text \<open>The desk, with a backend that answers a related-sections request with two sections.\<close>

definition shelf :: env where
  "shelf =
     (desk JNull)\<lparr>fetch :=
        (\<lambda>r. case r of
                GetRelated d t k \<Rightarrow>
                  Some \<lparr>ok = True, body = Some (JArr [bareSection, briefSection])\<rparr>
              | _ \<Rightarrow> fetch (desk JNull) r)\<rparr>"

text \<open>The body of an error reply: a JSON object with a \<open>detail\<close> message.\<close>

definition serverError :: json where
  "serverError = JObj [(lit ''detail'', JStr (lit ''Internal Server Error''))]"

text \<open>
  The desk during an outage of the backend: every insight and related-sections request is
  answered with a failure status (\<open>response.ok\<close> false) and the error body.
\<close>

definition outage :: env where
  "outage =
     (desk JNull)\<lparr>fetch :=
        (\<lambda>r. case r of
                PostInsights d t \<Rightarrow> Some \<lparr>ok = False, body = Some serverError\<rparr>
              | GetRelated d t k \<Rightarrow> Some \<lparr>ok = False, body = Some serverError\<rparr>
              | _ \<Rightarrow> fetch (desk JNull) r)\<rparr>"

text \<open>The page state right after loading: nothing open, nothing generated.\<close>

definition blank :: session where
  "blank = \<lparr>currentDocumentId = None, currentDocumentText = None, currentPodcastText = None,
            documents_metadata = Map.empty\<rparr>"

text \<open>The document \<open>long\<close> is open and a podcast script has been generated for it.\<close>

definition narrated :: session where
  "narrated = blank\<lparr>currentDocumentId := Some (lit ''long''),
                     currentPodcastText := Some (JStr (lit ''A''))\<rparr>"

section \<open>Effects of the parts\<close>

declare sampleLoop.simps [simp del] fullLoop.simps [simp del]

lemma requests_append: "requests (xs @ ys) = requests xs @ requests ys"
  by (induction xs rule: requests.induct) simp_all

lemma alerts_append: "alerts (xs @ ys) = alerts xs @ alerts ys"
  by (induction xs rule: alerts.induct) simp_all

lemma pagesRead_append: "pagesRead (xs @ ys) = pagesRead xs @ pagesRead ys"
  by (induction xs rule: pagesRead.induct) simp_all

lemma pagesRead_map_ReadPage: "pagesRead (map ReadPage ns) = ns"
  by (induction ns) simp_all

lemma andThen_Inr: "andThen r f = Inr y \<Longrightarrow> \<exists>x. r = Inr x \<and> f x = Inr y"
  by (cases r) (simp_all add: andThen_def)

lemma length_lit: "length (lit s) = length s"
  by (simp add: lit_def)

lemma trim_Nil: "trim [] = []"
  by (simp add: trim_def)

lemma length_trim: "length (trim s) \<le> length s"
proof -
  have "length (trim s) \<le> length (dropWhile isWhiteSpace s)"
    unfolding trim_def by (metis length_dropWhile_le length_rev)
  also have "\<dots> \<le> length s"
    by (rule length_dropWhile_le)
  finally show ?thesis .
qed

text \<open>Neither loop sends a request or shows an alert.\<close>

lemma sampleLoop_quiet:
  "requests (fst (sampleLoop pdf n k acc)) = [] \<and> alerts (fst (sampleLoop pdf n k acc)) = []"
proof (induction pdf n k acc rule: sampleLoop.induct)
  case (1 pdf samplePages pageNum sampleText)
  show ?case
    using 1 by (subst (1 2) sampleLoop.simps)
      (auto simp: Let_def case_prod_beta split: option.splits)
qed

lemma fullLoop_quiet:
  "requests (fst (fullLoop pdf n k acc)) = [] \<and> alerts (fst (fullLoop pdf n k acc)) = []"
proof (induction pdf n k acc rule: fullLoop.induct)
  case (1 pdf maxPages pageNum fullText)
  show ?case
    using 1 by (subst (1 2) fullLoop.simps)
      (auto simp: Let_def case_prod_beta split: option.splits)
qed

lemma extractSample_quiet:
  "requests (fst (extractSampleTextFromPDF e d)) = [] \<and>
   alerts (fst (extractSampleTextFromPDF e d)) = []"
  using sampleLoop_quiet [of "the (getDocument e (pdfUrl d))"]
  by (auto simp: extractSampleTextFromPDF_def sampleTry_def Let_def requests_append alerts_append
           case_prod_beta split: option.splits sum.splits)

lemma extractText_quiet:
  "requests (fst (extractTextFromPDF e d)) = [] \<and>
   alerts (fst (extractTextFromPDF e d)) = []"
  using fullLoop_quiet [of "the (getDocument e (pdfUrl d))"]
  by (auto simp: extractTextFromPDF_def fullTry_def Let_def requests_append alerts_append
           case_prod_beta split: option.splits sum.splits)

lemma showQuickInsights_quiet:
  "showQuickInsights e i t = Inr evs \<Longrightarrow> requests evs = [] \<and> alerts evs = []"
  by (auto simp: showQuickInsights_def andThen_def Let_def split: sum.splits)

lemma displayInsights_quiet:
  "displayInsights e i = Inr evs \<Longrightarrow> requests evs = [] \<and> alerts evs = []"
  by (auto simp: displayInsights_def andThen_def Let_def split: sum.splits if_splits)

lemma showRelatedSections_alerts: "alerts (showRelatedSections e d t) = []"
  by (auto simp: showRelatedSections_def relatedTry_def Let_def alerts_append
           split: option.splits sum.splits prod.splits if_splits)

lemma showRelatedSections_requests:
  "requests (showRelatedSections e d t) = [] \<or>
   requests (showRelatedSections e d t) = [GetRelated d t 5]"
  by (auto simp: showRelatedSections_def relatedTry_def Let_def requests_append
           split: option.splits sum.splits prod.splits if_splits)

section \<open>Requests and alerts of the three operations\<close>

lemma quick_requests:
  "requests (quickAnalyzeDocument e s docId) =
     (if length (trim (snd (extractSampleTextFromPDF e docId))) < 30 then []
      else [PostInsights docId (snd (extractSampleTextFromPDF e docId))])"
proof -
  obtain evs t where ex: "extractSampleTextFromPDF e docId = (evs, t)"
    by (cases "extractSampleTextFromPDF e docId")
  have q: "requests evs = []"
    using extractSample_quiet [of e docId] by (simp add: ex)
  show ?thesis
    by (auto simp: quickAnalyzeDocument_def quickTry_def ex q showLoading_def requests_append
          trim_Nil Let_def dest!: andThen_Inr dest: showQuickInsights_quiet
          split: option.splits sum.splits)
qed

lemma quick_alerts:
  "alerts (quickAnalyzeDocument e s docId) =
     (if length (trim (snd (extractSampleTextFromPDF e docId))) < 30 then [notEnoughQuick]
      else [])"
proof -
  obtain evs t where ex: "extractSampleTextFromPDF e docId = (evs, t)"
    by (cases "extractSampleTextFromPDF e docId")
  have q: "alerts evs = []"
    using extractSample_quiet [of e docId] by (simp add: ex)
  show ?thesis
    by (auto simp: quickAnalyzeDocument_def quickTry_def ex q showLoading_def alerts_append
          trim_Nil Let_def dest!: andThen_Inr dest: showQuickInsights_quiet
          split: option.splits sum.splits)
qed

lemma full_requests:
  "if length (trim (snd (extractTextFromPDF e docId))) < 50
   then requests (analyzeDocument e docId None) = []
   else \<exists>rest. requests (analyzeDocument e docId None) =
          PostInsights docId (snd (extractTextFromPDF e docId)) # rest"
proof -
  obtain evs t where ex: "extractTextFromPDF e docId = (evs, t)"
    by (cases "extractTextFromPDF e docId")
  have q: "requests evs = []"
    using extractText_quiet [of e docId] by (simp add: ex)
  show ?thesis
    by (auto simp: analyzeDocument_def analyzeTry_def ex q showLoading_def requests_append
          trim_Nil Let_def dest: displayInsights_quiet
          split: option.splits sum.splits)
qed

lemma full_alerts:
  "alerts (analyzeDocument e docId None) =
     (if length (trim (snd (extractTextFromPDF e docId))) < 50 then [notEnoughFull] else [])"
proof -
  obtain evs t where ex: "extractTextFromPDF e docId = (evs, t)"
    by (cases "extractTextFromPDF e docId")
  have q: "alerts evs = []"
    using extractText_quiet [of e docId] by (simp add: ex)
  show ?thesis
    by (auto simp: analyzeDocument_def analyzeTry_def ex q showLoading_def alerts_append
          trim_Nil Let_def showRelatedSections_alerts dest: displayInsights_quiet
          split: option.splits sum.splits)
qed

lemma podcast_requests:
  "requests (fst (generatePodcast e (s\<lparr>currentDocumentId := Some (c # cs)\<rparr>))) =
     (if length (trim (snd (extractTextFromPDF e (c # cs)))) < 100 then []
      else [PostPodcast (c # cs) (snd (extractTextFromPDF e (c # cs)))])"
proof -
  obtain evs t where ex: "extractTextFromPDF e (c # cs) = (evs, t)"
    by (cases "extractTextFromPDF e (c # cs)")
  have q: "requests evs = []"
    using extractText_quiet [of e "c # cs"] by (simp add: ex)
  show ?thesis
    by (auto simp: generatePodcast_def podcastTry_def ex q showLoading_def requests_append
          trim_Nil Let_def split: option.splits sum.splits)
qed

lemma podcast_alerts:
  "alerts (fst (generatePodcast e (s\<lparr>currentDocumentId := Some (c # cs)\<rparr>))) =
     (if length (trim (snd (extractTextFromPDF e (c # cs)))) < 100 then [notEnoughPodcast]
      else [])"
proof -
  obtain evs t where ex: "extractTextFromPDF e (c # cs) = (evs, t)"
    by (cases "extractTextFromPDF e (c # cs)")
  have q: "alerts evs = []"
    using extractText_quiet [of e "c # cs"] by (simp add: ex)
  show ?thesis
    by (auto simp: generatePodcast_def podcastTry_def ex q showLoading_def alerts_append
          trim_Nil Let_def split: option.splits sum.splits)
qed

lemma analyzeFullDocument_open:
  "analyzeFullDocument e (s\<lparr>currentDocumentId := Some (c # cs)\<rparr>) =
     analyzeDocument e (c # cs) None"
  by (simp add: analyzeFullDocument_def)

text \<open>
  Claim C1. Each operation compares the length of the trimmed extracted text with its own
  threshold before it sends anything to the backend. Below the threshold (30 for
  \<open>quickAnalyzeDocument\<close>, 50 for \<open>analyzeDocument\<close> without specific text, 100 for
  \<open>generatePodcast\<close> on an open document) the operation shows its not-enough-text message
  and sends no request at all; at the threshold or above it shows no such message and its
  first request is the insight request, respectively the podcast request, carrying the
  extracted text. \<open>analyzeFullDocument\<close> is \<open>analyzeDocument\<close> on the open document.
  (Opening the PDF through pdf.js is part of the extraction and is not counted among the
  requests.)
\<close>

theorem insufficient_text_thresholds:
  "requests (quickAnalyzeDocument e s docId) =
     (if length (trim (snd (extractSampleTextFromPDF e docId))) < 30 then []
      else [PostInsights docId (snd (extractSampleTextFromPDF e docId))]) \<and>
   alerts (quickAnalyzeDocument e s docId) =
     (if length (trim (snd (extractSampleTextFromPDF e docId))) < 30 then [notEnoughQuick]
      else []) \<and>
   (if length (trim (snd (extractTextFromPDF e docId))) < 50
    then requests (analyzeDocument e docId None) = []
    else \<exists>rest. requests (analyzeDocument e docId None) =
           PostInsights docId (snd (extractTextFromPDF e docId)) # rest) \<and>
   alerts (analyzeDocument e docId None) =
     (if length (trim (snd (extractTextFromPDF e docId))) < 50 then [notEnoughFull] else []) \<and>
   requests (fst (generatePodcast e (s\<lparr>currentDocumentId := Some (c # cs)\<rparr>))) =
     (if length (trim (snd (extractTextFromPDF e (c # cs)))) < 100 then []
      else [PostPodcast (c # cs) (snd (extractTextFromPDF e (c # cs)))]) \<and>
   alerts (fst (generatePodcast e (s\<lparr>currentDocumentId := Some (c # cs)\<rparr>))) =
     (if length (trim (snd (extractTextFromPDF e (c # cs)))) < 100 then [notEnoughPodcast]
      else []) \<and>
   analyzeFullDocument e (s\<lparr>currentDocumentId := Some (c # cs)\<rparr>) =
     analyzeDocument e (c # cs) None"
  by (intro conjI quick_requests quick_alerts full_requests full_alerts
        podcast_requests podcast_alerts analyzeFullDocument_open)

section \<open>The page-reading iterations\<close>

lemma lit_space: "lit '' '' = [0x20]"
  by (simp add: lit_def)

lemma pagePiece_Some:
  "getPage pdf n = Some items \<Longrightarrow> pagePiece pdf n = pageTextOf items @ pageSeparator"
  by (simp add: pagePiece_def pageTextOf_def pageSeparator_def lit_space)

lemma pagesText_0: "pagesText pdf 0 = []"
  by (simp add: pagesText_def)

lemma pagesText_Suc: "pagesText pdf (Suc k) = pagesText pdf k @ pagePiece pdf (Suc k)"
  by (simp add: pagesText_def)

lemma pagesText_step:
  "1 \<le> p \<Longrightarrow> getPage pdf p = Some items \<Longrightarrow>
   pagesText pdf (p - 1) @ pageTextOf items @ pageSeparator = pagesText pdf p"
  by (cases p) (simp_all add: pagesText_Suc pagePiece_Some)

lemma sampleLoop_truncates:
  "1 \<le> p \<Longrightarrow> p \<le> k \<Longrightarrow> k \<le> cap \<Longrightarrow> acc = pagesText pdf (p - 1) \<Longrightarrow>
   \<forall>j. p \<le> j \<and> j \<le> k \<longrightarrow> getPage pdf j \<noteq> None \<Longrightarrow>
   \<forall>j. p \<le> j \<and> j < k \<longrightarrow> length (pagesText pdf j) \<le> 1000 \<Longrightarrow>
   1000 < length (pagesText pdf k) \<Longrightarrow>
   sampleLoop pdf cap p acc =
     (map ReadPage [p..<Suc k], Inr (take 1000 (pagesText pdf k) @ lit ''...''))"
proof (induction pdf cap p acc rule: sampleLoop.induct)
  case (1 pdf samplePages pageNum sampleText)
  from 1 obtain items where it: "getPage pdf pageNum = Some items"
    by (metis not_Some_eq order_refl)
  have acc: "sampleText @ pageTextOf items @ pageSeparator = pagesText pdf pageNum"
    using 1 it pagesText_step by simp
  show ?case
  proof (cases "pageNum = k")
    case True
    with 1 it acc show ?thesis
      by (subst sampleLoop.simps) (simp add: Let_def)
  next
    case False
    with 1 have lt: "pageNum < k" by simp
    with 1 have small: "\<not> 1000 < length (pagesText pdf pageNum)"
      by (simp add: not_less)
    have le: "pageNum \<le> samplePages" using 1 by simp
    have rec: "sampleLoop pdf samplePages (pageNum + 1) (sampleText @ pageTextOf items @ pageSeparator) =
      (map ReadPage [pageNum + 1..<Suc k], Inr (take 1000 (pagesText pdf k) @ lit ''...''))"
      using 1 lt it small le acc by (intro "1.IH") (auto simp: Let_def)
    have upt: "[pageNum..<Suc k] = pageNum # [pageNum + 1..<Suc k]"
      using lt by (simp add: upt_conv_Cons)
    show ?thesis
      using rec small le it acc upt
      by (subst sampleLoop.simps) (simp add: Let_def)
  qed
qed


lemma sampleLoop_completes:
  "1 \<le> p \<Longrightarrow> p \<le> Suc cap \<Longrightarrow> acc = pagesText pdf (p - 1) \<Longrightarrow>
   \<forall>j. p \<le> j \<and> j \<le> cap \<longrightarrow> getPage pdf j \<noteq> None \<Longrightarrow>
   \<forall>j. p \<le> j \<and> j \<le> cap \<longrightarrow> length (pagesText pdf j) \<le> 1000 \<Longrightarrow>
   sampleLoop pdf cap p acc = (map ReadPage [p..<Suc cap], Inr (pagesText pdf cap))"
proof (induction pdf cap p acc rule: sampleLoop.induct)
  case (1 pdf samplePages pageNum sampleText)
  show ?case
  proof (cases "pageNum \<le> samplePages")
    case False
    with 1 have "pageNum = Suc samplePages" by simp
    with 1 show ?thesis
      by (subst sampleLoop.simps) simp
  next
    case True
    from 1 True obtain items where it: "getPage pdf pageNum = Some items"
      by (metis not_Some_eq order_refl)
    have acc: "sampleText @ pageTextOf items @ pageSeparator = pagesText pdf pageNum"
      using 1 it pagesText_step by simp
    have small: "\<not> 1000 < length (pagesText pdf pageNum)"
      using 1 True by (simp add: not_less)
    have rec: "sampleLoop pdf samplePages (pageNum + 1) (sampleText @ pageTextOf items @ pageSeparator) =
      (map ReadPage [pageNum + 1..<Suc samplePages], Inr (pagesText pdf samplePages))"
      using 1 True it small acc by (intro "1.IH") (auto simp: Let_def)
    have upt: "[pageNum..<Suc samplePages] = pageNum # [pageNum + 1..<Suc samplePages]"
      using True by (simp add: upt_conv_Cons)
    show ?thesis
      using rec small True it acc upt
      by (subst sampleLoop.simps) (simp add: Let_def)
  qed
qed

lemma fullLoop_completes:
  "1 \<le> p \<Longrightarrow> p \<le> Suc cap \<Longrightarrow> acc = pagesText pdf (p - 1) \<Longrightarrow>
   \<forall>j. p \<le> j \<and> j \<le> cap \<longrightarrow> getPage pdf j \<noteq> None \<Longrightarrow>
   fullLoop pdf cap p acc = (map ReadPage [p..<Suc cap], Inr (pagesText pdf cap))"
proof (induction pdf cap p acc rule: fullLoop.induct)
  case (1 pdf maxPages pageNum fullText)
  show ?case
  proof (cases "pageNum \<le> maxPages")
    case False
    with 1 have "pageNum = Suc maxPages" by simp
    with 1 show ?thesis
      by (subst fullLoop.simps) simp
  next
    case True
    from 1 True obtain items where it: "getPage pdf pageNum = Some items"
      by (metis not_Some_eq order_refl)
    have acc: "fullText @ pageTextOf items @ pageSeparator = pagesText pdf pageNum"
      using 1 it pagesText_step by simp
    have rec: "fullLoop pdf maxPages (pageNum + 1) (fullText @ pageTextOf items @ pageSeparator) =
      (map ReadPage [pageNum + 1..<Suc maxPages], Inr (pagesText pdf maxPages))"
      using 1 True it acc by (intro "1.IH") (auto simp: Let_def)
    have upt: "[pageNum..<Suc maxPages] = pageNum # [pageNum + 1..<Suc maxPages]"
      using True by (simp add: upt_conv_Cons)
    show ?thesis
      using rec True it acc upt
      by (subst fullLoop.simps) (simp add: Let_def)
  qed
qed

lemma sampleLoop_pages:
  "p \<le> Suc cap \<Longrightarrow>
   pagesRead (fst (sampleLoop pdf cap p acc)) =
     [p..<p + length (pagesRead (fst (sampleLoop pdf cap p acc)))] \<and>
   p + length (pagesRead (fst (sampleLoop pdf cap p acc))) \<le> Suc cap"
proof (induction pdf cap p acc rule: sampleLoop.induct)
  case (1 pdf samplePages pageNum sampleText)
  show ?case
    using 1 by (subst (1 2 3) sampleLoop.simps)
      (auto simp: Let_def case_prod_beta upt_conv_Cons split: option.splits)
qed

lemma fullLoop_pages:
  "p \<le> Suc cap \<Longrightarrow>
   pagesRead (fst (fullLoop pdf cap p acc)) =
     [p..<p + length (pagesRead (fst (fullLoop pdf cap p acc)))] \<and>
   p + length (pagesRead (fst (fullLoop pdf cap p acc))) \<le> Suc cap"
proof (induction pdf cap p acc rule: fullLoop.induct)
  case (1 pdf maxPages pageNum fullText)
  show ?case
    using 1 by (subst (1 2 3) fullLoop.simps)
      (auto simp: Let_def case_prod_beta upt_conv_Cons split: option.splits)
qed

lemma sampleLoop_length:
  "length acc \<le> 1000 \<Longrightarrow> snd (sampleLoop pdf cap p acc) = Inr t \<Longrightarrow> length t \<le> 1003"
proof (induction pdf cap p acc rule: sampleLoop.induct)
  case (1 pdf samplePages pageNum sampleText)
  from "1.prems"(2) "1.prems"(1) "1.IH" show ?case
    by (subst (asm) sampleLoop.simps)
      (auto simp: Let_def case_prod_beta length_lit split: option.splits if_splits)
qed

lemma sampleLoop_fails:
  "(\<exists>err. snd (sampleLoop pdf cap p acc) = Inl err) \<longleftrightarrow>
   (\<exists>n \<in> set (pagesRead (fst (sampleLoop pdf cap p acc))). getPage pdf n = None)"
proof (induction pdf cap p acc rule: sampleLoop.induct)
  case (1 pdf samplePages pageNum sampleText)
  show ?case
    using 1 by (subst (1 2) sampleLoop.simps)
      (auto simp: Let_def case_prod_beta split: option.splits)
qed

lemma fullLoop_fails:
  "(\<exists>err. snd (fullLoop pdf cap p acc) = Inl err) \<longleftrightarrow>
   (\<exists>n \<in> set (pagesRead (fst (fullLoop pdf cap p acc))). getPage pdf n = None)"
proof (induction pdf cap p acc rule: fullLoop.induct)
  case (1 pdf maxPages pageNum fullText)
  show ?case
    using 1 by (subst (1 2) fullLoop.simps)
      (auto simp: Let_def case_prod_beta split: option.splits)
qed



section \<open>Sample and full extraction\<close>

lemma pagePiece_longPages: "pagePiece longPages n = replicate 600 0x61 @ [0x0A, 0x0A]"
  by (simp add: pagePiece_def longPages_def)

lemma extractSample_length:
  "length (snd (extractSampleTextFromPDF e docId)) \<le> 1000 + length ellipsis"
proof (cases "sampleTry e docId")
  case (Pair evs r)
  show ?thesis
  proof (cases r)
    case (Inl err)
    with Pair show ?thesis
      by (simp add: extractSampleTextFromPDF_def sampleFallback_def ellipsis_def length_lit)
  next
    case (Inr t)
    with Pair obtain pdf' t' where
      l: "snd (sampleLoop pdf' (min (numPages pdf') 3) 1 []) = Inr t'" and t: "t = trim t'"
      by (auto simp: sampleTry_def Let_def case_prod_beta map_sum_def
            split: option.splits sum.splits)
    have "length t' \<le> 1003"
      using sampleLoop_length [OF _ l] by simp
    then have "length t \<le> 1003"
      using length_trim [of t'] t by simp
    with Pair Inr show ?thesis
      by (simp add: extractSampleTextFromPDF_def ellipsis_def length_lit)
  qed
qed

lemma extractSample_truncates:
  assumes "getDocument e (pdfUrl docId) = Some pdf"
    and "1 \<le> k" and "k \<le> min (numPages pdf) 3"
    and "\<forall>j\<in>{1..k}. getPage pdf j \<noteq> None"
    and "\<forall>j\<in>{1..<k}. length (pagesText pdf j) \<le> 1000"
    and "1000 < length (pagesText pdf k)"
  shows "extractSampleTextFromPDF e docId =
      (OpenPdf (pdfUrl docId) # map ReadPage [1..<Suc k],
       trim (take 1000 (pagesText pdf k) @ ellipsis))"
proof -
  have "sampleLoop pdf (min (numPages pdf) 3) 1 [] =
     (map ReadPage [1..<Suc k], Inr (take 1000 (pagesText pdf k) @ lit ''...''))"
    using assms by (intro sampleLoop_truncates) (auto simp: pagesText_0)
  with assms(1) show ?thesis
    by (simp add: extractSampleTextFromPDF_def sampleTry_def ellipsis_def)
qed

lemma desk_long: "getDocument (desk p) (pdfUrl (lit ''long'')) = Some longPages"
  by (simp add: desk_def pdfUrl_def lit_def)

lemma longPages_readable: "getPage longPages j \<noteq> None"
  by (simp add: longPages_def)

lemma length_pagesText_longPages: "length (pagesText longPages k) = 602 * k"
  by (induction k) (simp_all add: pagesText_0 pagesText_Suc pagePiece_longPages)

lemma extractSample_long:
  "extractSampleTextFromPDF (desk p) (lit ''long'') =
     (OpenPdf (pdfUrl (lit ''long'')) # map ReadPage [1..<Suc 2],
      trim (take 1000 (pagesText longPages 2) @ ellipsis))"
proof (rule extractSample_truncates [OF desk_long])
  show "\<forall>j\<in>{1..<2}. length (pagesText longPages j) \<le> 1000"
  proof
    fix j :: nat
    assume "j \<in> {1..<2}"
    then have "j = 1" by auto
    then show "length (pagesText longPages j) \<le> 1000"
      by (simp add: length_pagesText_longPages)
  qed
next
  show "2 \<le> min (numPages longPages) 3"
    by (simp add: longPages_def)
next
  show "\<forall>j\<in>{1..2}. getPage longPages j \<noteq> None"
    by (simp add: longPages_readable)
next
  show "1000 < length (pagesText longPages 2)"
    by (simp add: length_pagesText_longPages)
qed simp

text \<open>
  Claim C2. In \<open>extractSampleTextFromPDF\<close>, when the text accumulated over the readable
  pages 1 to \<open>k\<close> first exceeds 1000 code units at page \<open>k\<close> (within the page cap), the
  result is the first 1000 code units of that text followed by the ellipsis marker (then
  trimmed), and exactly the pages 1 to \<open>k\<close> were read. For every document the returned
  text is at most 1000 plus the length of the marker long.
\<close>

theorem sample_truncation_bound:
  "length (snd (extractSampleTextFromPDF e docId)) \<le> 1000 + length ellipsis \<and>
   (getDocument e (pdfUrl docId) = Some pdf \<and> 1 \<le> k \<and> k \<le> min (numPages pdf) 3 \<and>
    (\<forall>j\<in>{1..k}. getPage pdf j \<noteq> None) \<and>
    (\<forall>j\<in>{1..<k}. length (pagesText pdf j) \<le> 1000) \<and>
    1000 < length (pagesText pdf k) \<longrightarrow>
    extractSampleTextFromPDF e docId =
      (OpenPdf (pdfUrl docId) # map ReadPage [1..<Suc k],
       trim (take 1000 (pagesText pdf k) @ ellipsis)))"
  using extractSample_length [of e docId] extractSample_truncates [of e docId pdf k]
  by blast

theorem sample_truncation_bound_witness:
  "getDocument (desk JNull) (pdfUrl (lit ''long'')) = Some longPages \<and>
   (1::nat) \<le> 2 \<and> 2 \<le> min (numPages longPages) 3 \<and>
   getPage longPages 1 \<noteq> None \<and> getPage longPages 2 \<noteq> None \<and>
   length (pagesText longPages 1) \<le> 1000 \<and>
   1000 < length (pagesText longPages 2) \<and>
   extractSampleTextFromPDF (desk JNull) (lit ''long'') =
     (OpenPdf (pdfUrl (lit ''long'')) # map ReadPage [1..<Suc 2],
      trim (take 1000 (pagesText longPages 2) @ ellipsis)) \<and>
   length (snd (extractSampleTextFromPDF (desk JNull) (lit ''long''))) \<le> 1000 + length ellipsis"
proof -
  have a: "getDocument (desk JNull) (pdfUrl (lit ''long'')) = Some longPages"
    by (rule desk_long)
  have one: "(1::nat) \<le> 2"
    by simp
  have b: "2 \<le> min (numPages longPages) 3"
    by (simp add: longPages_def)
  have c: "\<forall>j\<in>{1..2}. getPage longPages j \<noteq> None"
    by (simp add: longPages_readable)
  have d: "\<forall>j\<in>{1..<2}. length (pagesText longPages j) \<le> 1000"
  proof
    fix j :: nat
    assume "j \<in> {1..<2}"
    then have "j = 1" by auto
    then show "length (pagesText longPages j) \<le> 1000"
      by (simp add: length_pagesText_longPages)
  qed
  have f: "1000 < length (pagesText longPages 2)"
    by (simp add: length_pagesText_longPages)
  note inst = sample_truncation_bound [of "desk JNull" "lit ''long''" longPages 2]
  have g: "extractSampleTextFromPDF (desk JNull) (lit ''long'') =
     (OpenPdf (pdfUrl (lit ''long'')) # map ReadPage [1..<Suc 2],
      trim (take 1000 (pagesText longPages 2) @ ellipsis))"
    using inst a one b c d f by blast
  have h: "length (snd (extractSampleTextFromPDF (desk JNull) (lit ''long''))) \<le>
             1000 + length ellipsis"
    using inst by blast
  have c1: "getPage longPages 1 \<noteq> None" and c2: "getPage longPages 2 \<noteq> None"
    by (rule longPages_readable)+
  have d1: "length (pagesText longPages 1) \<le> 1000"
    by (simp add: length_pagesText_longPages)
  show ?thesis
    using a one b c1 c2 d1 f g h by (intro conjI)
qed

lemma sampleTry_pages:
  "getDocument e (pdfUrl docId) = Some pdf \<Longrightarrow>
   \<exists>n\<le>min (numPages pdf) 3. pagesRead (fst (sampleTry e docId)) = [1..<Suc n]"
  using sampleLoop_pages [of 1 "min (numPages pdf) 3" pdf "[]"]
  by (auto simp: sampleTry_def Let_def case_prod_beta
        intro!: exI [of _ "length (pagesRead (fst (sampleLoop pdf (min (numPages pdf) 3) 1 [])))"])

lemma fullTry_pages:
  "getDocument e (pdfUrl docId) = Some pdf \<Longrightarrow>
   \<exists>n\<le>min (numPages pdf) 10. pagesRead (fst (fullTry e docId)) = [1..<Suc n]"
  using fullLoop_pages [of 1 "min (numPages pdf) 10" pdf "[]"]
  by (auto simp: fullTry_def Let_def case_prod_beta
        intro!: exI [of _ "length (pagesRead (fst (fullLoop pdf (min (numPages pdf) 10) 1 [])))"])

lemma extractSample_pagesRead:
  "pagesRead (fst (extractSampleTextFromPDF e docId)) = pagesRead (fst (sampleTry e docId))"
  by (auto simp: extractSampleTextFromPDF_def pagesRead_append split: prod.splits sum.splits)

lemma extractText_pagesRead:
  "pagesRead (fst (extractTextFromPDF e docId)) = pagesRead (fst (fullTry e docId))"
  by (auto simp: extractTextFromPDF_def pagesRead_append split: prod.splits sum.splits)

lemma sampleTry_closed:
  "getDocument e (pdfUrl docId) = None \<Longrightarrow> pagesRead (fst (sampleTry e docId)) = []"
  by (simp add: sampleTry_def)

lemma fullTry_closed:
  "getDocument e (pdfUrl docId) = None \<Longrightarrow> pagesRead (fst (fullTry e docId)) = []"
  by (simp add: fullTry_def)

lemma extractText_complete:
  "getDocument e (pdfUrl docId) = Some pdf \<Longrightarrow>
   \<forall>j\<in>{1..min (numPages pdf) 10}. getPage pdf j \<noteq> None \<Longrightarrow>
   extractTextFromPDF e docId =
     (OpenPdf (pdfUrl docId) # map ReadPage [1..<Suc (min (numPages pdf) 10)],
      trim (pagesText pdf (min (numPages pdf) 10)))"
proof -
  assume g: "getDocument e (pdfUrl docId) = Some pdf"
    and r: "\<forall>j\<in>{1..min (numPages pdf) 10}. getPage pdf j \<noteq> None"
  have "fullLoop pdf (min (numPages pdf) 10) 1 [] =
     (map ReadPage [1..<Suc (min (numPages pdf) 10)], Inr (pagesText pdf (min (numPages pdf) 10)))"
    using r by (intro fullLoop_completes) (auto simp: pagesText_0)
  with g show ?thesis
    by (simp add: extractTextFromPDF_def fullTry_def)
qed

lemma extractSample_complete:
  "getDocument e (pdfUrl docId) = Some pdf \<Longrightarrow>
   \<forall>j\<in>{1..min (numPages pdf) 3}. getPage pdf j \<noteq> None \<and> length (pagesText pdf j) \<le> 1000 \<Longrightarrow>
   extractSampleTextFromPDF e docId =
     (OpenPdf (pdfUrl docId) # map ReadPage [1..<Suc (min (numPages pdf) 3)],
      trim (pagesText pdf (min (numPages pdf) 3)))"
proof -
  assume g: "getDocument e (pdfUrl docId) = Some pdf"
    and r: "\<forall>j\<in>{1..min (numPages pdf) 3}.
              getPage pdf j \<noteq> None \<and> length (pagesText pdf j) \<le> 1000"
  have "sampleLoop pdf (min (numPages pdf) 3) 1 [] =
     (map ReadPage [1..<Suc (min (numPages pdf) 3)], Inr (pagesText pdf (min (numPages pdf) 3)))"
    using r by (intro sampleLoop_completes) (auto simp: pagesText_0)
  with g show ?thesis
    by (simp add: extractSampleTextFromPDF_def sampleTry_def)
qed

lemma desk_memo: "getDocument (desk p) (pdfUrl (lit ''memo'')) = Some memo"
  by (simp add: desk_def pdfUrl_def lit_def)

lemma pagesText_memo: "pagesText memo (Suc 0) = memoText @ [0x0A, 0x0A]"
  by (simp add: pagesText_def pagePiece_def memo_def memoText_def lit_def)

lemma trim_memoText: "trim (memoText @ [0x0A, 0x0A]) = memoText" "trim memoText = memoText"
  by (simp_all add: memoText_def lit_def trim_def isWhiteSpace_def)

lemma length_memoText: "length memoText = 120"
  by (simp add: memoText_def lit_def)

lemma extractText_memo:
  "extractTextFromPDF (desk p) (lit ''memo'') =
     ([OpenPdf (pdfUrl (lit ''memo'')), ReadPage 1], memoText)"
proof -
  have n: "min (numPages memo) 10 = 1"
    by (simp add: memo_def)
  have r: "\<forall>j\<in>{1..min (numPages memo) 10}. getPage memo j \<noteq> None"
    unfolding n by (simp add: memo_def)
  show ?thesis
    using extractText_complete [OF desk_memo r, of p]
    by (simp add: n pagesText_memo trim_memoText)
qed

text \<open>
  Claim C3. The pages read by \<open>extractSampleTextFromPDF\<close> are 1, 2, .. up to some page not
  beyond min(numPages, 3), those read by \<open>extractTextFromPDF\<close> are 1, 2, .. up to some page
  not beyond min(numPages, 10), in this order; nothing is read when the document does not
  open. When every page up to the cap is readable, \<open>extractTextFromPDF\<close> reads all of them
  and returns the trimmed text of these pages (fragments joined by a single space, a
  blank-line separator after each page), whatever its length;
  \<open>extractSampleTextFromPDF\<close> does the same up to its own cap as long as that text stays
  within 1000 code units.
\<close>

theorem page_caps_and_order:
  "(case getDocument e (pdfUrl docId) of
      None \<Rightarrow> pagesRead (fst (extractSampleTextFromPDF e docId)) = [] \<and>
              pagesRead (fst (extractTextFromPDF e docId)) = []
    | Some pdf \<Rightarrow>
        (\<exists>n\<le>min (numPages pdf) 3.
           pagesRead (fst (extractSampleTextFromPDF e docId)) = [1..<Suc n]) \<and>
        (\<exists>n\<le>min (numPages pdf) 10.
           pagesRead (fst (extractTextFromPDF e docId)) = [1..<Suc n]) \<and>
        ((\<forall>j\<in>{1..min (numPages pdf) 10}. getPage pdf j \<noteq> None) \<longrightarrow>
           extractTextFromPDF e docId =
             (OpenPdf (pdfUrl docId) # map ReadPage [1..<Suc (min (numPages pdf) 10)],
              trim (pagesText pdf (min (numPages pdf) 10)))) \<and>
        ((\<forall>j\<in>{1..min (numPages pdf) 3}.
            getPage pdf j \<noteq> None \<and> length (pagesText pdf j) \<le> 1000) \<longrightarrow>
           extractSampleTextFromPDF e docId =
             (OpenPdf (pdfUrl docId) # map ReadPage [1..<Suc (min (numPages pdf) 3)],
              trim (pagesText pdf (min (numPages pdf) 3)))))"
proof (cases "getDocument e (pdfUrl docId)")
  case None
  then show ?thesis
    by (simp add: extractSample_pagesRead extractText_pagesRead sampleTry_closed fullTry_closed)
next
  case (Some pdf)
  then show ?thesis
    using sampleTry_pages [OF Some] fullTry_pages [OF Some] extractText_complete [OF Some]
      extractSample_complete [OF Some]
    by (simp add: extractSample_pagesRead extractText_pagesRead)
qed

theorem page_caps_and_order_witness:
  "getDocument (desk JNull) (pdfUrl (lit ''long'')) = Some longPages \<and>
   min (numPages longPages) 10 = 10 \<and>
   pagesRead (fst (extractSampleTextFromPDF (desk JNull) (lit ''long''))) = [1, 2] \<and>
   extractTextFromPDF (desk JNull) (lit ''long'') =
     (OpenPdf (pdfUrl (lit ''long'')) # map ReadPage [1, 2, 3, 4, 5, 6, 7, 8, 9, 10],
      trim (pagesText longPages 10)) \<and>
   length (pagesText longPages 10) = 6020 \<and>
   getDocument (desk JNull) (pdfUrl (lit ''memo'')) = Some memo \<and>
   min (numPages memo) 3 = 1 \<and> getPage memo 1 \<noteq> None \<and>
   length (pagesText memo 1) \<le> 1000 \<and>
   extractSampleTextFromPDF (desk JNull) (lit ''memo'') =
     ([OpenPdf (pdfUrl (lit ''memo'')), ReadPage 1], memoText)"
proof -
  have ma: "getDocument (desk JNull) (pdfUrl (lit ''memo'')) = Some memo"
    by (rule desk_memo)
  have mn: "min (numPages memo) 3 = 1"
    by (simp add: memo_def)
  have mp: "getPage memo 1 \<noteq> None"
    by (simp add: memo_def)
  have ml: "length (pagesText memo 1) \<le> 1000"
    using pagesText_memo by (simp add: length_memoText)
  have mr: "\<forall>j\<in>{1..min (numPages memo) 3}.
              getPage memo j \<noteq> None \<and> length (pagesText memo j) \<le> 1000"
    unfolding mn using mp ml by simp
  have ms: "extractSampleTextFromPDF (desk JNull) (lit ''memo'') =
     ([OpenPdf (pdfUrl (lit ''memo'')), ReadPage 1], memoText)"
    using page_caps_and_order [of "desk JNull" "lit ''memo''"] ma mr mn pagesText_memo
    by (simp add: trim_memoText)
  have a: "getDocument (desk JNull) (pdfUrl (lit ''long'')) = Some longPages"
    by (rule desk_long)
  have b: "\<forall>j\<in>{1..min (numPages longPages) 10}. getPage longPages j \<noteq> None"
    by (simp add: longPages_readable)
  have m: "min (numPages longPages) 10 = 10"
    by (simp add: longPages_def)
  have u: "[1..<Suc 10] = [1, 2, 3, 4, 5, 6, 7, 8, 9, 10::nat]"
    by (simp add: upt_rec)
  have c: "extractTextFromPDF (desk JNull) (lit ''long'') =
     (OpenPdf (pdfUrl (lit ''long'')) # map ReadPage [1, 2, 3, 4, 5, 6, 7, 8, 9, 10],
      trim (pagesText longPages 10))"
    using page_caps_and_order [of "desk JNull" "lit ''long''"] a b m u by simp
  have d: "pagesRead (fst (extractSampleTextFromPDF (desk JNull) (lit ''long''))) = [1, 2]"
    by (simp add: extractSample_long pagesRead_map_ReadPage upt_rec)
  have l: "length (pagesText longPages 10) = 6020"
    by (simp add: length_pagesText_longPages)
  show ?thesis
    using a m d c l ma mn mp ml ms by (intro conjI)
qed

section \<open>Extraction failures\<close>

lemma sampleTry_fails:
  "(\<exists>err. snd (sampleTry e docId) = Inl err) \<longleftrightarrow>
   (case getDocument e (pdfUrl docId) of
      None \<Rightarrow> True
    | Some pdf \<Rightarrow> \<exists>n\<in>set (pagesRead (fst (sampleTry e docId))). getPage pdf n = None)"
proof (cases "getDocument e (pdfUrl docId)")
  case None
  then show ?thesis by (simp add: sampleTry_def)
next
  case (Some pdf)
  obtain evs r where l: "sampleLoop pdf (min (numPages pdf) 3) 1 [] = (evs, r)"
    by (cases "sampleLoop pdf (min (numPages pdf) 3) 1 []")
  show ?thesis
    using sampleLoop_fails [of pdf "min (numPages pdf) 3" 1 "[]"] Some l
    by (cases r) (simp_all add: sampleTry_def)
qed

lemma fullTry_fails:
  "(\<exists>err. snd (fullTry e docId) = Inl err) \<longleftrightarrow>
   (case getDocument e (pdfUrl docId) of
      None \<Rightarrow> True
    | Some pdf \<Rightarrow> \<exists>n\<in>set (pagesRead (fst (fullTry e docId))). getPage pdf n = None)"
proof (cases "getDocument e (pdfUrl docId)")
  case None
  then show ?thesis by (simp add: fullTry_def)
next
  case (Some pdf)
  obtain evs r where l: "fullLoop pdf (min (numPages pdf) 10) 1 [] = (evs, r)"
    by (cases "fullLoop pdf (min (numPages pdf) 10) 1 []")
  show ?thesis
    using fullLoop_fails [of pdf "min (numPages pdf) 10" 1 "[]"] Some l
    by (cases r) (simp_all add: fullTry_def)
qed

lemma extractSample_fallback:
  "snd (sampleTry e docId) = Inl err \<Longrightarrow> snd (extractSampleTextFromPDF e docId) = sampleFallback"
  by (cases "sampleTry e docId") (simp add: extractSampleTextFromPDF_def)

lemma extractText_fallback:
  "snd (fullTry e docId) = Inl err \<Longrightarrow> snd (extractTextFromPDF e docId) = fullFallback"
  by (cases "fullTry e docId") (simp add: extractTextFromPDF_def)

lemma length_sampleFallback: "length sampleFallback = 45"
  by (simp add: sampleFallback_def lit_def)

lemma length_fullFallback: "length fullFallback = 77"
  by (simp add: fullFallback_def lit_def)

lemma trim_sampleFallback: "trim sampleFallback = sampleFallback"
  by (simp add: sampleFallback_def lit_def trim_def isWhiteSpace_def)

lemma trim_fullFallback: "trim fullFallback = fullFallback"
  by (simp add: fullFallback_def lit_def trim_def isWhiteSpace_def)

text \<open>
  Claim C6. Neither extraction function can raise: each returns a string in every case.
  When the document does not open, or when one of the pages that were read could not be
  read, the text returned is the fixed fallback sentence of that function, and both
  sentences are non-empty.
\<close>

theorem extraction_failure_absorbed:
  "((getDocument e (pdfUrl docId) = None \<or>
     (\<exists>pdf. getDocument e (pdfUrl docId) = Some pdf \<and>
        (\<exists>n\<in>set (pagesRead (fst (extractSampleTextFromPDF e docId))). getPage pdf n = None)))
    \<longrightarrow> snd (extractSampleTextFromPDF e docId) = sampleFallback) \<and>
   ((getDocument e (pdfUrl docId) = None \<or>
     (\<exists>pdf. getDocument e (pdfUrl docId) = Some pdf \<and>
        (\<exists>n\<in>set (pagesRead (fst (extractTextFromPDF e docId))). getPage pdf n = None)))
    \<longrightarrow> snd (extractTextFromPDF e docId) = fullFallback) \<and>
   sampleFallback \<noteq> [] \<and> fullFallback \<noteq> []"
proof (intro conjI impI)
  assume "getDocument e (pdfUrl docId) = None \<or>
     (\<exists>pdf. getDocument e (pdfUrl docId) = Some pdf \<and>
        (\<exists>n\<in>set (pagesRead (fst (extractSampleTextFromPDF e docId))). getPage pdf n = None))"
  then have "\<exists>err. snd (sampleTry e docId) = Inl err"
    unfolding sampleTry_fails by (auto simp: extractSample_pagesRead)
  then show "snd (extractSampleTextFromPDF e docId) = sampleFallback"
    using extractSample_fallback by blast
next
  assume "getDocument e (pdfUrl docId) = None \<or>
     (\<exists>pdf. getDocument e (pdfUrl docId) = Some pdf \<and>
        (\<exists>n\<in>set (pagesRead (fst (extractTextFromPDF e docId))). getPage pdf n = None))"
  then have "\<exists>err. snd (fullTry e docId) = Inl err"
    unfolding fullTry_fails by (auto simp: extractText_pagesRead)
  then show "snd (extractTextFromPDF e docId) = fullFallback"
    using extractText_fallback by blast
next
  show "sampleFallback \<noteq> []"
    using length_sampleFallback by auto
next
  show "fullFallback \<noteq> []"
    using length_fullFallback by auto
qed

lemma desk_other: "getDocument (desk p) (pdfUrl (lit ''gone'')) = None"
  by (simp add: desk_def pdfUrl_def lit_def)

lemma desk_torn: "getDocument (desk p) (pdfUrl (lit ''torn'')) = Some torn"
  by (simp add: desk_def pdfUrl_def lit_def)

lemma torn_pages:
  "numPages torn = 3" "getPage torn 1 = Some [lit ''Minutes of the meeting.'']"
  "getPage torn (Suc 0) = Some [lit ''Minutes of the meeting.'']"
  "getPage torn 2 = None" "getPage torn (Suc (Suc 0)) = None"
  by (simp_all add: torn_def)

lemma fullTry_torn:
  "fullTry (desk p) (lit ''torn'') =
     ([OpenPdf (pdfUrl (lit ''torn'')), ReadPage 1, ReadPage 2], Inl PdfError)"
  by (simp add: fullTry_def desk_torn fullLoop.simps torn_pages)

lemma extractText_torn:
  "fst (extractTextFromPDF (desk p) (lit ''torn'')) =
     [OpenPdf (pdfUrl (lit ''torn'')), ReadPage 1, ReadPage 2,
      ConsoleError (lit ''PDF text extraction failed:'') PdfError]"
  by (simp add: extractTextFromPDF_def fullTry_torn)

theorem extraction_failure_absorbed_witness:
  "getDocument (desk JNull) (pdfUrl (lit ''gone'')) = None \<and>
   snd (extractSampleTextFromPDF (desk JNull) (lit ''gone'')) = sampleFallback \<and>
   getDocument (desk JNull) (pdfUrl (lit ''torn'')) = Some torn \<and>
   2 \<in> set (pagesRead (fst (extractTextFromPDF (desk JNull) (lit ''torn'')))) \<and>
   getPage torn 2 = None \<and>
   snd (extractTextFromPDF (desk JNull) (lit ''torn'')) = fullFallback \<and>
   sampleFallback \<noteq> [] \<and> fullFallback \<noteq> []"
proof -
  have a: "getDocument (desk JNull) (pdfUrl (lit ''gone'')) = None"
    by (rule desk_other)
  have b: "getDocument (desk JNull) (pdfUrl (lit ''torn'')) = Some torn"
    by (rule desk_torn)
  have c: "2 \<in> set (pagesRead (fst (extractTextFromPDF (desk JNull) (lit ''torn''))))"
    by (simp add: extractText_torn)
  have d: "getPage torn 2 = None"
    by (simp add: torn_def)
  have f: "snd (extractSampleTextFromPDF (desk JNull) (lit ''gone'')) = sampleFallback"
    using extraction_failure_absorbed [of "desk JNull" "lit ''gone''"] a by blast
  have g: "snd (extractTextFromPDF (desk JNull) (lit ''torn'')) = fullFallback"
    using extraction_failure_absorbed [of "desk JNull" "lit ''torn''"] b c d by blast
  have h: "sampleFallback \<noteq> [] \<and> fullFallback \<noteq> []"
    using extraction_failure_absorbed [of "desk JNull" "lit ''gone''"] by blast
  show ?thesis
    using a b c d f g h by (intro conjI) simp_all
qed

lemma quick_after_failure:
  "snd (sampleTry e docId) = Inl err \<Longrightarrow>
   requests (quickAnalyzeDocument e s docId) = [PostInsights docId sampleFallback]"
  using quick_requests [of e s docId]
  by (simp add: extractSample_fallback trim_sampleFallback length_sampleFallback)

lemma full_after_failure:
  "snd (fullTry e docId) = Inl err \<Longrightarrow>
   \<exists>rest. requests (analyzeDocument e docId None) = PostInsights docId fullFallback # rest"
  using full_requests [of e docId]
  by (simp add: extractText_fallback trim_fullFallback length_fullFallback)

lemma podcast_after_failure:
  "snd (fullTry e docId) = Inl err \<Longrightarrow>
   requests (fst (generatePodcast e (s\<lparr>currentDocumentId := Some docId\<rparr>))) = [] \<and>
   (docId \<noteq> [] \<longrightarrow>
      alerts (fst (generatePodcast e (s\<lparr>currentDocumentId := Some docId\<rparr>))) =
        [notEnoughPodcast])"
proof (cases docId)
  case Nil
  then show ?thesis by (simp add: generatePodcast_def)
next
  case (Cons c cs)
  assume "snd (fullTry e docId) = Inl err"
  then show ?thesis
    using podcast_requests [where e = e and s = s and c = c and cs = cs]
      podcast_alerts [where e = e and s = s and c = c and cs = cs] Cons
    by (simp add: extractText_fallback trim_fullFallback length_fullFallback)
qed

text \<open>
  Claim C10. The sample fallback sentence has 45 code units and the full fallback sentence
  77. So when the \<open>try\<close> block of the extraction fails, \<open>quickAnalyzeDocument\<close> and
  \<open>analyzeDocument\<close> still send their insight request, with the fallback sentence as the
  text, while \<open>generatePodcast\<close> sends nothing and shows its not-enough-text message.
\<close>

theorem fallback_lengths_diverge:
  "length sampleFallback = 45 \<and> length fullFallback = 77 \<and>
   ((\<exists>err. snd (sampleTry e docId) = Inl err) \<longrightarrow>
      requests (quickAnalyzeDocument e s docId) = [PostInsights docId sampleFallback]) \<and>
   ((\<exists>err. snd (fullTry e docId) = Inl err) \<longrightarrow>
      (\<exists>rest. requests (analyzeDocument e docId None) = PostInsights docId fullFallback # rest) \<and>
      requests (fst (generatePodcast e (s\<lparr>currentDocumentId := Some docId\<rparr>))) = [] \<and>
      (docId \<noteq> [] \<longrightarrow>
         alerts (fst (generatePodcast e (s\<lparr>currentDocumentId := Some docId\<rparr>))) =
           [notEnoughPodcast]))"
  using length_sampleFallback length_fullFallback quick_after_failure
    full_after_failure podcast_after_failure
  by blast

lemma sampleTry_gone: "sampleTry (desk p) (lit ''gone'') = ([OpenPdf (pdfUrl (lit ''gone''))], Inl PdfError)"
  by (simp add: sampleTry_def desk_other)

lemma fullTry_gone: "fullTry (desk p) (lit ''gone'') = ([OpenPdf (pdfUrl (lit ''gone''))], Inl PdfError)"
  by (simp add: fullTry_def desk_other)

theorem fallback_lengths_diverge_witness:
  "snd (sampleTry (desk JNull) (lit ''gone'')) = Inl PdfError \<and>
   snd (fullTry (desk JNull) (lit ''gone'')) = Inl PdfError \<and>
   lit ''gone'' \<noteq> [] \<and>
   requests (quickAnalyzeDocument (desk JNull) blank (lit ''gone'')) =
     [PostInsights (lit ''gone'') sampleFallback] \<and>
   (\<exists>rest. requests (analyzeDocument (desk JNull) (lit ''gone'') None) =
      PostInsights (lit ''gone'') fullFallback # rest) \<and>
   requests (fst (generatePodcast (desk JNull) (blank\<lparr>currentDocumentId := Some (lit ''gone'')\<rparr>))) = [] \<and>
   alerts (fst (generatePodcast (desk JNull) (blank\<lparr>currentDocumentId := Some (lit ''gone'')\<rparr>))) =
     [notEnoughPodcast]"
proof -
  have a: "snd (sampleTry (desk JNull) (lit ''gone'')) = Inl PdfError"
    by (simp add: sampleTry_gone)
  have b: "snd (fullTry (desk JNull) (lit ''gone'')) = Inl PdfError"
    by (simp add: fullTry_gone)
  have c: "lit ''gone'' \<noteq> []"
    by (simp add: lit_def)
  note inst = fallback_lengths_diverge [where e = "desk JNull" and docId = "lit ''gone''" and s = blank]
  show ?thesis
    using inst a b c by blast
qed

section \<open>The page state across view changes\<close>

lemma loadDocuments_session:
  "currentDocumentId (snd (loadDocuments e s)) = currentDocumentId s \<and>
   currentPodcastText (snd (loadDocuments e s)) = currentPodcastText s"
  by (auto simp: loadDocuments_def loadTry_def
        split: option.splits sum.splits prod.splits json.splits)

lemma deleteDocument_session:
  "currentDocumentId (snd (deleteDocument e s docId)) = currentDocumentId s \<and>
   currentPodcastText (snd (deleteDocument e s docId)) = currentPodcastText s"
  using loadDocuments_session [of e s]
  by (auto simp: deleteDocument_def case_prod_beta split: option.splits)

text \<open>
  Claim C8, as the code has it. \<open>viewDocument\<close> sets \<open>currentDocumentId\<close> to the given
  identifier and hides the podcast panel, but leaves \<open>currentPodcastText\<close> as it was;
  \<open>goBack\<close> sets \<open>currentDocumentId\<close> to null and leaves \<open>currentPodcastText\<close> as it was;
  \<open>deleteDocument\<close>, with the refresh it starts, changes neither of the two. The open
  document is a single variable, so at most one document is open at a time.
\<close>

theorem session_transitions:
  "currentDocumentId (snd (viewDocument s docId)) = Some docId \<and>
   currentPodcastText (snd (viewDocument s docId)) = currentPodcastText s \<and>
   SetDisplay PodcastContainer False \<in> set (fst (viewDocument s docId)) \<and>
   currentDocumentId (snd (goBack s)) = None \<and>
   currentPodcastText (snd (goBack s)) = currentPodcastText s \<and>
   currentDocumentId (snd (deleteDocument e s docId)) = currentDocumentId s \<and>
   currentPodcastText (snd (deleteDocument e s docId)) = currentPodcastText s"
  using deleteDocument_session [of e s docId]
  by (simp add: viewDocument_def goBack_def)

text \<open>
  Claim C8 as stated fails: with the document \<open>long\<close> open and a script generated,
  opening another document or going back keeps the script, and a confirmed, successful
  deletion of \<open>long\<close> leaves it open with its script.
\<close>

theorem session_not_reset:
  "currentPodcastText (snd (viewDocument narrated (lit ''memo''))) = Some (JStr (lit ''A'')) \<and>
   currentPodcastText (snd (goBack narrated)) = Some (JStr (lit ''A'')) \<and>
   fst (deleteDocument (desk JNull) narrated (lit ''long'')) =
     [Confirm confirmDelete, Fetch (DeleteDocument (lit ''long'')),
      Alert (lit ''Document deleted successfully''), Fetch GetDocuments,
      Render (DocumentsGrid [])] \<and>
   currentDocumentId (snd (deleteDocument (desk JNull) narrated (lit ''long''))) =
     Some (lit ''long'') \<and>
   currentPodcastText (snd (deleteDocument (desk JNull) narrated (lit ''long''))) =
     Some (JStr (lit ''A''))"
  by (simp add: viewDocument_def goBack_def narrated_def blank_def deleteDocument_def desk_def
        loadDocuments_def loadTry_def)

section \<open>Rendering of insights\<close>

lemma escapeHtml_JStr: "escapeHtml e (Some (JStr t)) = t"
  by (simp add: escapeHtml_def toString_def)

lemma getProp_truthy: "truthy v \<Longrightarrow> getProp v k = Inr (getOptProp v k)"
  by (induction v k rule: getProp.induct) simp_all

lemma escapeItems_field:
  "bundleField v items \<Longrightarrow> placeholder \<noteq> [] \<Longrightarrow>
   escapeItems e (orElse v (Some (JArr [JStr placeholder]))) =
     Inr (renderedField items placeholder)"
  by (cases items)
    (auto simp: escapeItems_def orElse_def escapeHtml_JStr comp_def)

lemma placeholders_nonempty:
  "lit ''No key insights available'' \<noteq> []" "lit ''No additional facts available'' \<noteq> []"
  "lit ''No counterpoints available'' \<noteq> []" "lit ''No connections available'' \<noteq> []"
  by (simp_all add: lit_def)

lemma displayInsights_bundle:
  assumes "getProp (Some insights) (lit ''insights'') = Inr ins" and "truthy ins"
    and "bundleField (getOptProp ins (lit ''key_insights'')) k"
    and "bundleField (getOptProp ins (lit ''did_you_know'')) d"
    and "bundleField (getOptProp ins (lit ''counterpoints'')) c"
    and "bundleField (getOptProp ins (lit ''connections'')) n"
  shows "displayInsights e insights =
     Inr [Render (Insights (renderedField k (lit ''No key insights available''))
                           (renderedField d (lit ''No additional facts available''))
                           (renderedField c (lit ''No counterpoints available''))
                           (renderedField n (lit ''No connections available''))),
          SetDisplay InsightsContainer True]"
  using assms
  by (simp add: displayInsights_def andThen_def getProp_truthy escapeItems_field
        placeholders_nonempty noKeyInsights_def noFacts_def noCounterpoints_def
        noConnections_def)

lemma showQuickInsights_bundle:
  assumes "getProp (Some insights) (lit ''insights'') = Inr ins"
    and "bundleField (getOptProp ins (lit ''key_insights'')) k"
    and "bundleField (getOptProp ins (lit ''did_you_know'')) d"
  shows "showQuickInsights e insights title =
     Inr [Render (QuickInsightsModal (escapeHtml e title)
                    (renderedField k (lit ''No key insights available''))
                    (renderedField d (lit ''No additional facts available'')))]"
  using assms
  by (simp add: showQuickInsights_def andThen_def escapeItems_field
        placeholders_nonempty noKeyInsights_def noFacts_def Let_def)

lemma escapeHtml_optionalString: "optionalString v t \<Longrightarrow> escapeHtml e v = t"
  by (auto simp: optionalString_def escapeHtml_def toString_def)

lemma displayInsights_none:
  "getProp (Some insights) (lit ''insights'') = Inr ins \<Longrightarrow> \<not> truthy ins \<Longrightarrow>
   displayInsights e insights = Inr [Render NoInsightsGenerated, SetDisplay InsightsContainer True]"
  by (simp add: displayInsights_def andThen_def)

text \<open>
  Claim C5, as the code has it. Take an insight response whose \<open>insights\<close> member can be
  read and whose four fields are each omitted, null or a sequence of strings. If
  \<open>insights\<close> is truthy, \<open>displayInsights\<close> renders all four fields: the values of a
  field that was provided, unchanged, and the one-element placeholder of a field that was
  omitted or null. If \<open>insights\<close> is missing or otherwise falsy, \<open>displayInsights\<close> renders
  the notice that no insights were generated instead. \<open>showQuickInsights\<close>, given a
  document title that is omitted, null or a string, renders the title, the key insights
  and the facts only, with the same fallback for each of the two fields.
\<close>

theorem insight_fields_fallback:
  "getProp (Some insights) (lit ''insights'') = Inr ins \<and>
   bundleField (getOptProp ins (lit ''key_insights'')) k \<and>
   bundleField (getOptProp ins (lit ''did_you_know'')) d \<and>
   bundleField (getOptProp ins (lit ''counterpoints'')) c \<and>
   bundleField (getOptProp ins (lit ''connections'')) n \<and>
   optionalString title shownTitle \<longrightarrow>
   displayInsights e insights =
     (if truthy ins
      then Inr [Render (Insights (renderedField k (lit ''No key insights available''))
                                 (renderedField d (lit ''No additional facts available''))
                                 (renderedField c (lit ''No counterpoints available''))
                                 (renderedField n (lit ''No connections available''))),
                SetDisplay InsightsContainer True]
      else Inr [Render NoInsightsGenerated, SetDisplay InsightsContainer True]) \<and>
   showQuickInsights e insights title =
     Inr [Render (QuickInsightsModal shownTitle
                    (renderedField k (lit ''No key insights available''))
                    (renderedField d (lit ''No additional facts available'')))]"
  using displayInsights_bundle [of insights ins k d c n e] displayInsights_none [of insights ins e]
    showQuickInsights_bundle [of insights ins k d e title]
    escapeHtml_optionalString [of title shownTitle e]
  by auto

theorem insight_fields_fallback_witness:
  "getProp (Some threeOfFour) (lit ''insights'') = Inr (member threeOfFour (lit ''insights'')) \<and>
   bundleField (getOptProp (member threeOfFour (lit ''insights'')) (lit ''key_insights''))
     (Some [lit ''K'']) \<and>
   bundleField (getOptProp (member threeOfFour (lit ''insights'')) (lit ''did_you_know''))
     (Some [lit ''D'']) \<and>
   bundleField (getOptProp (member threeOfFour (lit ''insights'')) (lit ''counterpoints''))
     (Some [lit ''C'']) \<and>
   bundleField (getOptProp (member threeOfFour (lit ''insights'')) (lit ''connections'')) None \<and>
   optionalString (Some (JStr (lit ''Memo''))) (lit ''Memo'') \<and>
   displayInsights (desk JNull) threeOfFour =
     Inr [Render (Insights [lit ''K''] [lit ''D''] [lit ''C''] [lit ''No connections available'']),
          SetDisplay InsightsContainer True] \<and>
   showQuickInsights (desk JNull) threeOfFour (Some (JStr (lit ''Memo''))) =
     Inr [Render (QuickInsightsModal (lit ''Memo'') [lit ''K''] [lit ''D''])]"
proof -
  let ?ins = "member threeOfFour (lit ''insights'')"
  have a: "getProp (Some threeOfFour) (lit ''insights'') = Inr ?ins"
    by (simp add: threeOfFour_def)
  have m: "?ins = Some (JObj [(lit ''key_insights'', JArr [JStr (lit ''K'')]),
              (lit ''did_you_know'', JArr [JStr (lit ''D'')]),
              (lit ''counterpoints'', JArr [JStr (lit ''C'')])])"
    by (simp add: threeOfFour_def)
  have k: "bundleField (getOptProp ?ins (lit ''key_insights'')) (Some [lit ''K''])"
    unfolding m by (simp add: lit_def)
  have d: "bundleField (getOptProp ?ins (lit ''did_you_know'')) (Some [lit ''D''])"
    unfolding m by (simp add: lit_def)
  have c: "bundleField (getOptProp ?ins (lit ''counterpoints'')) (Some [lit ''C''])"
    unfolding m by (simp add: lit_def)
  have n: "bundleField (getOptProp ?ins (lit ''connections'')) None"
    unfolding m by (simp add: lit_def)
  have t: "truthy ?ins"
    unfolding m by simp
  have o: "optionalString (Some (JStr (lit ''Memo''))) (lit ''Memo'')"
    by (simp add: optionalString_def)
  note inst = insight_fields_fallback [where insights = threeOfFour and ins = ?ins
      and k = "Some [lit ''K'']" and d = "Some [lit ''D'']" and c = "Some [lit ''C'']"
      and n = None and e = "desk JNull" and title = "Some (JStr (lit ''Memo''))"
      and shownTitle = "lit ''Memo''"]
  have r: "displayInsights (desk JNull) threeOfFour =
     Inr [Render (Insights [lit ''K''] [lit ''D''] [lit ''C''] [lit ''No connections available'']),
          SetDisplay InsightsContainer True] \<and>
   showQuickInsights (desk JNull) threeOfFour (Some (JStr (lit ''Memo''))) =
     Inr [Render (QuickInsightsModal (lit ''Memo'') [lit ''K''] [lit ''D''])]"
    using inst a k d c n o t by simp
  show ?thesis
    using a k d c n o r by (intro conjI) simp_all
qed

text \<open>
  Claim C5 as stated fails: for a response without an \<open>insights\<close> member
  \<open>displayInsights\<close> renders none of the four fields, and \<open>showQuickInsights\<close> renders two
  fields of a response that provides all four.
\<close>

theorem missing_insights_counterexample:
  "displayInsights (desk JNull) (JObj []) =
     Inr [Render NoInsightsGenerated, SetDisplay InsightsContainer True] \<and>
   showQuickInsights (desk JNull)
     (JObj [(lit ''insights'',
        JObj [(lit ''key_insights'', JArr [JStr (lit ''K'')]),
              (lit ''did_you_know'', JArr [JStr (lit ''D'')]),
              (lit ''counterpoints'', JArr [JStr (lit ''C'')]),
              (lit ''connections'', JArr [JStr (lit ''N'')])])])
     (Some (JStr (lit ''Memo''))) =
     Inr [Render (QuickInsightsModal (lit ''Memo'') [lit ''K''] [lit ''D''])]"
  by (simp add: displayInsights_def showQuickInsights_def andThen_def lit_def orElse_def
        escapeItems_def escapeHtml_def toString_def noKeyInsights_def noFacts_def)

section \<open>The podcast script\<close>

lemma orElse_strings:
  "optionalString a x \<Longrightarrow> optionalString b y \<Longrightarrow> t \<noteq> [] \<Longrightarrow>
   orElse (orElse a b) (Some (JStr t)) = Some (JStr (firstNonEmpty x y t))"
  by (auto simp: optionalString_def orElse_def firstNonEmpty_def)

lemma podcast_script:
  assumes "docId \<noteq> []"
    and "100 \<le> length (trim (snd (extractTextFromPDF e docId)))"
    and "fetch e (PostPodcast docId (snd (extractTextFromPDF e docId))) = Some resp"
    and "body resp = Some podcast" and "podcast \<noteq> JNull"
    and "optionalString (member podcast (lit ''script'')) script"
    and "optionalString (member podcast (lit ''text_content'')) text_content"
  shows "currentPodcastText (snd (generatePodcast e (s\<lparr>currentDocumentId := Some docId\<rparr>))) =
     Some (JStr (firstNonEmpty script text_content (snd (extractTextFromPDF e docId))))"
proof -
  obtain evs t where ex: "extractTextFromPDF e docId = (evs, t)"
    by (cases "extractTextFromPDF e docId")
  have ne: "t \<noteq> []"
    using assms(2) ex by (auto simp: trim_Nil)
  have gp: "getProp (Some podcast) (lit ''script'') = Inr (member podcast (lit ''script''))"
    using assms(5) by (cases podcast) simp_all
  have oe: "orElse (orElse (member podcast (lit ''script'')) (member podcast (lit ''text_content'')))
              (Some (JStr t)) = Some (JStr (firstNonEmpty script text_content t))"
    using assms(6,7) ne by (rule orElse_strings)
  show ?thesis
    using assms(1-4) ex ne gp oe
    by (simp add: generatePodcast_def podcastTry_def Let_def substring0_def not_less [symmetric]
          split: prod.splits sum.splits)
qed


lemma desk_podcast:
  "fetch (desk p) (PostPodcast d t) = Some \<lparr>ok = True, body = Some p\<rparr>"
  by (simp add: desk_def)

text \<open>
  Claim C7. With a document open, enough text extracted and a podcast response that is not
  null and whose \<open>script\<close> and \<open>text_content\<close> members are each omitted, null or a string,
  \<open>generatePodcast\<close> stores as \<open>currentPodcastText\<close> the first non-empty of: the script, the
  text content, the extracted text.
\<close>

theorem podcast_script_resolution:
  "docId \<noteq> [] \<and>
   100 \<le> length (trim (snd (extractTextFromPDF e docId))) \<and>
   fetch e (PostPodcast docId (snd (extractTextFromPDF e docId))) = Some resp \<and>
   body resp = Some podcast \<and> podcast \<noteq> JNull \<and>
   optionalString (member podcast (lit ''script'')) script \<and>
   optionalString (member podcast (lit ''text_content'')) text_content \<longrightarrow>
   currentPodcastText (snd (generatePodcast e (s\<lparr>currentDocumentId := Some docId\<rparr>))) =
     Some (JStr (firstNonEmpty script text_content (snd (extractTextFromPDF e docId))))"
  using podcast_script [of docId e resp podcast script text_content s] by blast

lemma memo_id: "lit ''memo'' \<noteq> []"
  by (simp add: lit_def)

lemma podcast_witness_facts:
  "100 \<le> length (trim (snd (extractTextFromPDF (desk p) (lit ''memo''))))"
  "fetch (desk p) (PostPodcast (lit ''memo'') (snd (extractTextFromPDF (desk p) (lit ''memo'')))) =
     Some \<lparr>ok = True, body = Some p\<rparr>"
  "body \<lparr>ok = True, body = Some p\<rparr> = Some p"
  by (simp_all add: extractText_memo trim_memoText length_memoText desk_podcast)

theorem podcast_script_resolution_witness:
  "lit ''memo'' \<noteq> [] \<and>
   100 \<le> length (trim (snd (extractTextFromPDF (desk (JObj [])) (lit ''memo'')))) \<and>
   currentPodcastText
     (snd (generatePodcast (desk (JObj [(lit ''script'', JStr (lit ''A''))]))
             (blank\<lparr>currentDocumentId := Some (lit ''memo'')\<rparr>))) = Some (JStr (lit ''A'')) \<and>
   currentPodcastText
     (snd (generatePodcast (desk (JObj [(lit ''text_content'', JStr (lit ''B''))]))
             (blank\<lparr>currentDocumentId := Some (lit ''memo'')\<rparr>))) = Some (JStr (lit ''B'')) \<and>
   currentPodcastText
     (snd (generatePodcast (desk (JObj []))
             (blank\<lparr>currentDocumentId := Some (lit ''memo'')\<rparr>))) = Some (JStr memoText)"
proof (intro conjI)
  show "lit ''memo'' \<noteq> []"
    by (rule memo_id)
next
  show "100 \<le> length (trim (snd (extractTextFromPDF (desk (JObj [])) (lit ''memo''))))"
    by (rule podcast_witness_facts)
next
  let ?p = "JObj [(lit ''script'', JStr (lit ''A''))]"
  have "optionalString (member ?p (lit ''script'')) (lit ''A'')"
    and "optionalString (member ?p (lit ''text_content'')) []"
    by (simp_all add: optionalString_def lit_def)
  then show "currentPodcastText
     (snd (generatePodcast (desk ?p) (blank\<lparr>currentDocumentId := Some (lit ''memo'')\<rparr>))) =
     Some (JStr (lit ''A''))"
    using podcast_script_resolution [where docId = "lit ''memo''" and e = "desk ?p"
        and resp = "\<lparr>ok = True, body = Some ?p\<rparr>" and podcast = ?p
        and script = "lit ''A''" and text_content = "[]" and s = blank]
      podcast_witness_facts [of ?p] memo_id
    by (simp add: firstNonEmpty_def lit_def)
next
  let ?p = "JObj [(lit ''text_content'', JStr (lit ''B''))]"
  have "optionalString (member ?p (lit ''script'')) []"
    and "optionalString (member ?p (lit ''text_content'')) (lit ''B'')"
    by (simp_all add: optionalString_def lit_def)
  then show "currentPodcastText
     (snd (generatePodcast (desk ?p) (blank\<lparr>currentDocumentId := Some (lit ''memo'')\<rparr>))) =
     Some (JStr (lit ''B''))"
    using podcast_script_resolution [where docId = "lit ''memo''" and e = "desk ?p"
        and resp = "\<lparr>ok = True, body = Some ?p\<rparr>" and podcast = ?p
        and script = "[]" and text_content = "lit ''B''" and s = blank]
      podcast_witness_facts [of ?p] memo_id
    by (simp add: firstNonEmpty_def lit_def)
next
  let ?p = "JObj []"
  have "optionalString (member ?p (lit ''script'')) []"
    and "optionalString (member ?p (lit ''text_content'')) []"
    by (simp_all add: optionalString_def)
  then show "currentPodcastText
     (snd (generatePodcast (desk ?p) (blank\<lparr>currentDocumentId := Some (lit ''memo'')\<rparr>))) =
     Some (JStr memoText)"
    using podcast_script_resolution [where docId = "lit ''memo''" and e = "desk ?p"
        and resp = "\<lparr>ok = True, body = Some ?p\<rparr>" and podcast = ?p
        and script = "[]" and text_content = "[]" and s = blank]
      podcast_witness_facts [of ?p] memo_id
    by (simp add: firstNonEmpty_def extractText_memo)
qed

section \<open>Rendering of related sections\<close>

lemma wellFormed_memoText: "wellFormed memoText"
  by (simp add: memoText_def lit_def isLeadSurrogate_def isTrailSurrogate_def)

lemma relatedCard_section:
  assumes "relatedSection v"
  shows "\<exists>c. relatedCard e v = Inr c \<and>
           preview c = take 100 (sectionText v) @ ellipsis \<and>
           (missing (getOptProp (member v (lit ''meta'')) (lit ''page'')) \<longrightarrow>
              page c = lit ''N/A'') \<and>
           (missing (member v (lit ''score'')) \<longrightarrow> score c = lit ''0.00'')"
proof -
  obtain t where t: "member v (lit ''text'') = Some (JStr t)"
    using assms by (auto simp: relatedSection_def split: option.splits json.splits)
  then have st: "sectionText v = t"
    by (simp add: sectionText_def)
  have nn: "v \<noteq> JNull"
    using t by auto
  then have gp: "getProp (Some v) (lit ''text'') = Inr (Some (JStr t))"
    using t by (cases v) simp_all
  obtain sc where sc: "scoreText e (member v (lit ''score'')) = Inr sc"
    and sc0: "missing (member v (lit ''score'')) \<longrightarrow> sc = lit ''0.00''"
    using assms
    by (auto simp: relatedSection_def scoreText_def missing_def split: option.splits json.splits)
  show ?thesis
    using gp sc sc0 st
    by (auto simp: relatedCard_def andThen_def substring0_def Let_def escapeHtml_JStr
          ellipsis_def orElse_def toString_def missing_def)
qed

lemma relatedCards_sections:
  "list_all relatedSection sections \<Longrightarrow>
   \<exists>cards. relatedCards e sections = Inr cards \<and>
     list_all2 (\<lambda>v c. preview c = take 100 (sectionText v) @ ellipsis \<and>
                      (missing (getOptProp (member v (lit ''meta'')) (lit ''page'')) \<longrightarrow>
                         page c = lit ''N/A'') \<and>
                      (missing (member v (lit ''score'')) \<longrightarrow> score c = lit ''0.00''))
       sections cards"
proof (induction sections)
  case Nil
  then show ?case by simp
next
  case (Cons v rest)
  then obtain cards where r: "relatedCards e rest = Inr cards"
    "list_all2 (\<lambda>v c. preview c = take 100 (sectionText v) @ ellipsis \<and>
                      (missing (getOptProp (member v (lit ''meta'')) (lit ''page'')) \<longrightarrow>
                         page c = lit ''N/A'') \<and>
                      (missing (member v (lit ''score'')) \<longrightarrow> score c = lit ''0.00''))
       rest cards"
    by auto
  from Cons.prems have "relatedSection v"
    by simp
  from relatedCard_section [OF this, of e]
  obtain c where c: "relatedCard e v = Inr c"
    "preview c = take 100 (sectionText v) @ ellipsis"
    "missing (getOptProp (member v (lit ''meta'')) (lit ''page'')) \<longrightarrow> page c = lit ''N/A''"
    "missing (member v (lit ''score'')) \<longrightarrow> score c = lit ''0.00''"
    by blast
  have "relatedCards e (v # rest) = Inr (c # cards)"
    using c(1) r(1) by (simp add: andThen_def)
  moreover have "list_all2 (\<lambda>v c. preview c = take 100 (sectionText v) @ ellipsis \<and>
                      (missing (getOptProp (member v (lit ''meta'')) (lit ''page'')) \<longrightarrow>
                         page c = lit ''N/A'') \<and>
                      (missing (member v (lit ''score'')) \<longrightarrow> score c = lit ''0.00''))
       (v # rest) (c # cards)"
    using c(2-4) r(2) by simp
  ultimately show ?case
    by blast
qed

lemma showRelatedSections_sections:
  assumes "query \<noteq> []" and "wellFormed query"
    and "fetch e (GetRelated docId query 5) = Some resp"
    and "body resp = Some (JArr sections)" and "sections \<noteq> []"
    and "list_all relatedSection sections"
  shows "\<exists>cards.
     showRelatedSections e docId query =
       [Fetch (GetRelated docId query 5), Render (RelatedCards cards),
        SetDisplay RelatedSections True] \<and>
     list_all2 (\<lambda>v c. preview c = take 100 (sectionText v) @ ellipsis \<and>
                      (missing (getOptProp (member v (lit ''meta'')) (lit ''page'')) \<longrightarrow>
                         page c = lit ''N/A'') \<and>
                      (missing (member v (lit ''score'')) \<longrightarrow> score c = lit ''0.00''))
       sections cards"
proof -
  from relatedCards_sections [OF assms(6), of e]
  obtain cards where c: "relatedCards e sections = Inr cards"
    "list_all2 (\<lambda>v c. preview c = take 100 (sectionText v) @ ellipsis \<and>
                      (missing (getOptProp (member v (lit ''meta'')) (lit ''page'')) \<longrightarrow>
                         page c = lit ''N/A'') \<and>
                      (missing (member v (lit ''score'')) \<longrightarrow> score c = lit ''0.00''))
       sections cards"
    by blast
  have "relatedContent e (JArr sections) = Inr (RelatedCards cards)"
    using c(1) assms(5) by (simp add: relatedContent_def lengthPositive_def andThen_def)
  then have "showRelatedSections e docId query =
       [Fetch (GetRelated docId query 5), Render (RelatedCards cards),
        SetDisplay RelatedSections True]"
    using assms(1-4) by (simp add: showRelatedSections_def relatedTry_def)
  with c(2) show ?thesis
    by blast
qed

text \<open>
  Claim C9. When the related-sections request is answered with a non-empty sequence of
  related sections (each with a text, and with a page and a score that are omitted, null
  or a number), \<open>showRelatedSections\<close> renders one card per section, in order, without
  an error. The preview of every card is the first 100 code units of the section text
  followed by the ellipsis marker, whatever the length of the text; a missing page is
  rendered as \<open>N/A\<close> and a missing score as \<open>0.00\<close>.
\<close>

theorem related_sections_rendering:
  "query \<noteq> [] \<and> wellFormed query \<and> fetch e (GetRelated docId query 5) = Some resp \<and>
   body resp = Some (JArr sections) \<and> sections \<noteq> [] \<and> list_all relatedSection sections \<longrightarrow>
   (\<exists>cards.
     showRelatedSections e docId query =
       [Fetch (GetRelated docId query 5), Render (RelatedCards cards),
        SetDisplay RelatedSections True] \<and>
     list_all2 (\<lambda>v c. preview c = take 100 (sectionText v) @ ellipsis \<and>
                      (missing (getOptProp (member v (lit ''meta'')) (lit ''page'')) \<longrightarrow>
                         page c = lit ''N/A'') \<and>
                      (missing (member v (lit ''score'')) \<longrightarrow> score c = lit ''0.00''))
       sections cards)"
proof (intro impI, elim conjE)
  assume "query \<noteq> []" "wellFormed query" "fetch e (GetRelated docId query 5) = Some resp"
    "body resp = Some (JArr sections)" "sections \<noteq> []" "list_all relatedSection sections"
  then show "\<exists>cards.
     showRelatedSections e docId query =
       [Fetch (GetRelated docId query 5), Render (RelatedCards cards),
        SetDisplay RelatedSections True] \<and>
     list_all2 (\<lambda>v c. preview c = take 100 (sectionText v) @ ellipsis \<and>
                      (missing (getOptProp (member v (lit ''meta'')) (lit ''page'')) \<longrightarrow>
                         page c = lit ''N/A'') \<and>
                      (missing (member v (lit ''score'')) \<longrightarrow> score c = lit ''0.00''))
       sections cards"
    by (rule showRelatedSections_sections)
qed

lemma shelf_related:
  "fetch shelf (GetRelated d t k) =
     Some \<lparr>ok = True, body = Some (JArr [bareSection, briefSection])\<rparr>"
  by (simp add: shelf_def)

lemma example_sections:
  "relatedSection bareSection" "relatedSection briefSection"
  "sectionText bareSection = replicate 500 0x61" "sectionText briefSection = lit ''Brief''"
  "missing (getOptProp (member bareSection (lit ''meta'')) (lit ''page''))"
  "missing (getOptProp (member briefSection (lit ''meta'')) (lit ''page''))"
  "missing (member bareSection (lit ''score''))" "missing (member briefSection (lit ''score''))"
  by (simp_all add: relatedSection_def sectionText_def missing_def bareSection_def
        briefSection_def lit_def)

theorem related_sections_rendering_witness:
  "memoText \<noteq> [] \<and> wellFormed memoText \<and>
   fetch shelf (GetRelated (lit ''memo'') memoText 5) =
     Some \<lparr>ok = True, body = Some (JArr [bareSection, briefSection])\<rparr> \<and>
   list_all relatedSection [bareSection, briefSection] \<and>
   (\<exists>c1 c2.
      showRelatedSections shelf (lit ''memo'') memoText =
        [Fetch (GetRelated (lit ''memo'') memoText 5), Render (RelatedCards [c1, c2]),
         SetDisplay RelatedSections True] \<and>
      preview c1 = replicate 100 0x61 @ ellipsis \<and> page c1 = lit ''N/A'' \<and>
      score c1 = lit ''0.00'' \<and>
      preview c2 = lit ''Brief'' @ ellipsis \<and> page c2 = lit ''N/A'' \<and>
      score c2 = lit ''0.00'')"
proof -
  have a: "memoText \<noteq> []"
    using length_memoText by auto
  have b: "wellFormed memoText"
    by (rule wellFormed_memoText)
  have c: "fetch shelf (GetRelated (lit ''memo'') memoText 5) =
     Some \<lparr>ok = True, body = Some (JArr [bareSection, briefSection])\<rparr>"
    by (rule shelf_related)
  have d: "body \<lparr>ok = True, body = Some (JArr [bareSection, briefSection])\<rparr> =
     Some (JArr [bareSection, briefSection])"
    by simp
  have f: "[bareSection, briefSection] \<noteq> []"
    by simp
  have g: "list_all relatedSection [bareSection, briefSection]"
    by (simp add: example_sections)
  note inst = related_sections_rendering [where e = shelf and docId = "lit ''memo''"
      and query = memoText and sections = "[bareSection, briefSection]"
      and resp = "\<lparr>ok = True, body = Some (JArr [bareSection, briefSection])\<rparr>",
      rule_format, OF conjI [OF a conjI [OF b conjI [OF c conjI [OF d conjI [OF f g]]]]]]
  then obtain cards where cards:
    "showRelatedSections shelf (lit ''memo'') memoText =
       [Fetch (GetRelated (lit ''memo'') memoText 5), Render (RelatedCards cards),
        SetDisplay RelatedSections True]"
    "list_all2 (\<lambda>v c. preview c = take 100 (sectionText v) @ ellipsis \<and>
                      (missing (getOptProp (member v (lit ''meta'')) (lit ''page'')) \<longrightarrow>
                         page c = lit ''N/A'') \<and>
                      (missing (member v (lit ''score'')) \<longrightarrow> score c = lit ''0.00''))
       [bareSection, briefSection] cards"
    by blast
  from cards(2) obtain c1 c2 where cs: "cards = [c1, c2]"
    "preview c1 = replicate 100 0x61 @ ellipsis" "page c1 = lit ''N/A''" "score c1 = lit ''0.00''"
    "preview c2 = lit ''Brief'' @ ellipsis" "page c2 = lit ''N/A''" "score c2 = lit ''0.00''"
    by (auto simp: list_all2_Cons1 example_sections length_lit)
  have "\<exists>c1 c2.
      showRelatedSections shelf (lit ''memo'') memoText =
        [Fetch (GetRelated (lit ''memo'') memoText 5), Render (RelatedCards [c1, c2]),
         SetDisplay RelatedSections True] \<and>
      preview c1 = replicate 100 0x61 @ ellipsis \<and> page c1 = lit ''N/A'' \<and>
      score c1 = lit ''0.00'' \<and>
      preview c2 = lit ''Brief'' @ ellipsis \<and> page c2 = lit ''N/A'' \<and>
      score c2 = lit ''0.00''"
    using cards(1) cs by blast
  with a b c g show ?thesis
    by (intro conjI)
qed

section \<open>Full analysis: insights, then related sections\<close>

lemma failures_append: "failures (xs @ ys) = failures xs @ failures ys"
  by (induction xs rule: failures.induct) simp_all

lemma set_requests: "r \<in> set (requests evs) \<longleftrightarrow> Fetch r \<in> set evs"
  by (induction evs rule: requests.induct) auto

lemma sampleLoop_no_failures: "failures (fst (sampleLoop pdf n k acc)) = []"
proof (induction pdf n k acc rule: sampleLoop.induct)
  case (1 pdf samplePages pageNum sampleText)
  show ?case
    using 1 by (subst sampleLoop.simps)
      (auto simp: Let_def case_prod_beta split: option.splits)
qed

lemma fullLoop_no_failures: "failures (fst (fullLoop pdf n k acc)) = []"
proof (induction pdf n k acc rule: fullLoop.induct)
  case (1 pdf maxPages pageNum fullText)
  show ?case
    using 1 by (subst fullLoop.simps)
      (auto simp: Let_def case_prod_beta split: option.splits)
qed

lemma extractText_no_failures: "failures (fst (extractTextFromPDF e d)) = []"
  using fullLoop_no_failures [of "the (getDocument e (pdfUrl d))"]
  by (auto simp: extractTextFromPDF_def fullTry_def Let_def failures_append
           case_prod_beta split: option.splits sum.splits)

lemma displayInsights_no_failures: "displayInsights e i = Inr evs \<Longrightarrow> failures evs = []"
  by (auto simp: displayInsights_def andThen_def Let_def split: sum.splits if_splits)

lemma showRelatedSections_no_failures: "failures (showRelatedSections e d t) = []"
  by (auto simp: showRelatedSections_def relatedTry_def Let_def failures_append
           split: option.splits sum.splits prod.splits if_splits)

lemma showRelatedSections_shape:
  "Fetch (GetRelated d x k) \<in> set (showRelatedSections e docId t) \<Longrightarrow>
   d = docId \<and> x = t \<and> k = 5 \<and>
   (\<exists>after. showRelatedSections e docId t = Fetch (GetRelated docId t 5) # after)"
  by (auto simp: showRelatedSections_def relatedTry_def Let_def
           split: option.splits sum.splits prod.splits if_splits)

lemma showRelatedSections_failed:
  "t \<noteq> [] \<Longrightarrow> relatedTry e docId t = (sent, Inl err) \<Longrightarrow>
   showRelatedSections e docId t =
     sent @ [ConsoleError (lit ''Failed to load related sections:'') err]"
  by (simp add: showRelatedSections_def)

lemma analyzeDocument_success:
  assumes "extractTextFromPDF e docId = (evs, t)" and "\<not> length (trim t) < 50"
    and "fetch e (PostInsights docId t) = Some resp" and "body resp = Some insights"
    and "displayInsights e insights = Inr shown"
  shows "analyzeDocument e docId None =
     showLoading True @ evs @ Fetch (PostInsights docId t) # shown
       @ showRelatedSections e docId t @ showLoading False"
proof -
  have "t \<noteq> []"
    using assms(2) by (auto simp: trim_Nil)
  then show ?thesis
    using assms by (simp add: analyzeDocument_def analyzeTry_def)
qed

lemma analyzeDocument_related_only_after:
  assumes "extractTextFromPDF e docId = (evs, t)"
    and "Fetch (GetRelated d x k) \<in> set (analyzeDocument e docId None)"
  shows "\<not> length (trim t) < 50 \<and>
     (\<exists>resp insights shown. fetch e (PostInsights docId t) = Some resp \<and>
        body resp = Some insights \<and> displayInsights e insights = Inr shown)"
proof -
  have q: "requests evs = []"
    using extractText_quiet [of e docId] assms(1) by simp
  have "GetRelated d x k \<in> set (requests (analyzeDocument e docId None))"
    using assms(2) by (simp add: set_requests)
  then show ?thesis
    using assms(1) q
    by (auto simp: analyzeDocument_def analyzeTry_def requests_append showLoading_def Let_def
          trim_Nil split: option.splits sum.splits if_splits)
qed

text \<open>
  What \<open>analyzeDocument\<close> does without specific text. A related-sections request is sent
  only for the analysed document, with the extracted text and the result count 5, and only
  after the insight request was answered, parsed and rendered; the status of the answer
  is never read. When the related-sections step then throws, the insights stay rendered,
  the error is logged to the console, and no error is reported to the user.
\<close>

lemma related_follows_rendering:
  "(Fetch (GetRelated d x k) \<in> set (analyzeDocument e docId None) \<longrightarrow>
      d = docId \<and> x = snd (extractTextFromPDF e docId) \<and> k = 5 \<and>
      (\<exists>resp insights shown before after.
         fetch e (PostInsights docId (snd (extractTextFromPDF e docId))) = Some resp \<and>
         body resp = Some insights \<and> displayInsights e insights = Inr shown \<and>
         analyzeDocument e docId None =
           before @ Fetch (PostInsights docId (snd (extractTextFromPDF e docId))) # shown
             @ Fetch (GetRelated docId (snd (extractTextFromPDF e docId)) 5) # after)) \<and>
   (50 \<le> length (trim (snd (extractTextFromPDF e docId))) \<and>
    fetch e (PostInsights docId (snd (extractTextFromPDF e docId))) = Some resp \<and>
    body resp = Some insights \<and> displayInsights e insights = Inr shown \<and>
    relatedTry e docId (snd (extractTextFromPDF e docId)) = (sent, Inl err) \<longrightarrow>
      analyzeDocument e docId None =
        showLoading True @ fst (extractTextFromPDF e docId)
          @ Fetch (PostInsights docId (snd (extractTextFromPDF e docId))) # shown
          @ sent @ [ConsoleError (lit ''Failed to load related sections:'') err]
          @ showLoading False \<and>
      failures (analyzeDocument e docId None) = [] \<and>
      alerts (analyzeDocument e docId None) = [])"
proof -
  obtain evs t where ex: "extractTextFromPDF e docId = (evs, t)"
    by (cases "extractTextFromPDF e docId")
  have first: "d = docId \<and> x = t \<and> k = 5 \<and>
      (\<exists>resp insights shown before after.
         fetch e (PostInsights docId t) = Some resp \<and>
         body resp = Some insights \<and> displayInsights e insights = Inr shown \<and>
         analyzeDocument e docId None =
           before @ Fetch (PostInsights docId t) # shown @ Fetch (GetRelated docId t 5) # after)"
    if m: "Fetch (GetRelated d x k) \<in> set (analyzeDocument e docId None)"
  proof -
    from analyzeDocument_related_only_after [OF ex m]
    obtain resp insights shown where ok: "\<not> length (trim t) < 50"
      "fetch e (PostInsights docId t) = Some resp" "body resp = Some insights"
      "displayInsights e insights = Inr shown"
      by blast
    note whole = analyzeDocument_success [OF ex ok]
    have "Fetch (GetRelated d x k) \<notin> set evs"
      using extractText_quiet [of e docId] ex set_requests [of "GetRelated d x k" evs] by simp
    moreover have "Fetch (GetRelated d x k) \<notin> set shown"
      using displayInsights_quiet [OF ok(4)] set_requests [of "GetRelated d x k" shown] by simp
    ultimately have "Fetch (GetRelated d x k) \<in> set (showRelatedSections e docId t)"
      using m whole by (auto simp: showLoading_def)
    from showRelatedSections_shape [OF this]
    obtain after where r: "d = docId" "x = t" "k = 5"
      "showRelatedSections e docId t = Fetch (GetRelated docId t 5) # after"
      by blast
    have "analyzeDocument e docId None =
       (showLoading True @ evs) @ Fetch (PostInsights docId t) # shown
         @ Fetch (GetRelated docId t 5) # (after @ showLoading False)"
      using whole r(4) by simp
    with r(1-3) ok(2-4) show ?thesis
      by blast
  qed
  have second: "analyzeDocument e docId None =
        showLoading True @ evs @ Fetch (PostInsights docId t) # shown
          @ sent @ [ConsoleError (lit ''Failed to load related sections:'') err]
          @ showLoading False \<and>
      failures (analyzeDocument e docId None) = [] \<and>
      alerts (analyzeDocument e docId None) = []"
    if h: "50 \<le> length (trim t)" "fetch e (PostInsights docId t) = Some resp"
      "body resp = Some insights" "displayInsights e insights = Inr shown"
      "relatedTry e docId t = (sent, Inl err)"
  proof -
    have ok: "\<not> length (trim t) < 50"
      using h(1) by simp
    then have ne: "t \<noteq> []"
      by (auto simp: trim_Nil)
    note whole = analyzeDocument_success [OF ex ok h(2-4)]
    have a: "analyzeDocument e docId None =
        showLoading True @ evs @ Fetch (PostInsights docId t) # shown
          @ sent @ [ConsoleError (lit ''Failed to load related sections:'') err]
          @ showLoading False"
      using whole showRelatedSections_failed [OF ne h(5)] by simp
    have b: "failures (analyzeDocument e docId None) = []"
      unfolding whole
      using extractText_no_failures [of e docId] ex displayInsights_no_failures [OF h(4)]
      by (simp add: failures_append showLoading_def showRelatedSections_no_failures)
    have c: "alerts (analyzeDocument e docId None) = []"
      using full_alerts [of e docId] ex ok by simp
    from a b c show ?thesis
      by (intro conjI)
  qed
  show ?thesis
    unfolding ex fst_conv snd_conv
  proof (rule conjI; rule impI)
    assume "Fetch (GetRelated d x k) \<in> set (analyzeDocument e docId None)"
    then show "d = docId \<and> x = t \<and> k = 5 \<and>
      (\<exists>resp insights shown before after.
         fetch e (PostInsights docId t) = Some resp \<and>
         body resp = Some insights \<and> displayInsights e insights = Inr shown \<and>
         analyzeDocument e docId None =
           before @ Fetch (PostInsights docId t) # shown @ Fetch (GetRelated docId t 5) # after)"
      by (rule first)
  next
    assume "50 \<le> length (trim t) \<and> fetch e (PostInsights docId t) = Some resp \<and>
      body resp = Some insights \<and> displayInsights e insights = Inr shown \<and>
      relatedTry e docId t = (sent, Inl err)"
    then show "analyzeDocument e docId None =
        showLoading True @ evs @ Fetch (PostInsights docId t) # shown
          @ sent @ [ConsoleError (lit ''Failed to load related sections:'') err]
          @ showLoading False \<and>
      failures (analyzeDocument e docId None) = [] \<and>
      alerts (analyzeDocument e docId None) = []"
      by (elim conjE) (rule second)
  qed
qed

lemma outage_memo: "getDocument outage (pdfUrl (lit ''memo'')) = Some memo"
  by (simp add: outage_def desk_memo)

lemma extractText_outage:
  "extractTextFromPDF outage (lit ''memo'') =
     ([OpenPdf (pdfUrl (lit ''memo'')), ReadPage 1], memoText)"
proof -
  have n: "min (numPages memo) 10 = 1"
    by (simp add: memo_def)
  have r: "\<forall>j\<in>{1..min (numPages memo) 10}. getPage memo j \<noteq> None"
    unfolding n by (simp add: memo_def)
  show ?thesis
    using extractText_complete [OF outage_memo r]
    by (simp add: n pagesText_memo trim_memoText)
qed

lemma outage_replies:
  "fetch outage (PostInsights d t) = Some \<lparr>ok = False, body = Some serverError\<rparr>"
  "fetch outage (GetRelated d t k) = Some \<lparr>ok = False, body = Some serverError\<rparr>"
  by (simp_all add: outage_def)

lemma displayInsights_serverError:
  "displayInsights e serverError =
     Inr [Render NoInsightsGenerated, SetDisplay InsightsContainer True]"
  by (simp add: displayInsights_def serverError_def andThen_def lit_def)

lemma relatedContent_serverError: "relatedContent e serverError = Inr NoRelatedSections"
  by (simp add: relatedContent_def serverError_def lengthPositive_def gtZero_def lit_def)

lemma memoText_nonempty: "memoText \<noteq> []"
  using length_memoText by auto

lemma showRelatedSections_outage:
  "showRelatedSections outage (lit ''memo'') memoText =
     [Fetch (GetRelated (lit ''memo'') memoText 5), Render NoRelatedSections,
      SetDisplay RelatedSections True]"
  by (simp add: showRelatedSections_def relatedTry_def memoText_nonempty wellFormed_memoText
        outage_replies relatedContent_serverError)

text \<open>
  Claim C4 does not hold of the code. The memo is analysed while the backend answers the
  insight request and the related-sections request with a failure status and an error
  body. The related-sections request is sent although the insight request has failed, and
  the failure of the related-sections request is not reported: the page shows that no
  insights were generated and that no related sections were found.
\<close>

theorem related_sent_after_failed_insights:
  "fetch outage (PostInsights (lit ''memo'') memoText) =
     Some \<lparr>ok = False, body = Some serverError\<rparr> \<and>
   fetch outage (GetRelated (lit ''memo'') memoText 5) =
     Some \<lparr>ok = False, body = Some serverError\<rparr> \<and>
   analyzeDocument outage (lit ''memo'') None =
     [SetDisplay Loading True, OpenPdf (pdfUrl (lit ''memo'')), ReadPage 1,
      Fetch (PostInsights (lit ''memo'') memoText),
      Render NoInsightsGenerated, SetDisplay InsightsContainer True,
      Fetch (GetRelated (lit ''memo'') memoText 5),
      Render NoRelatedSections, SetDisplay RelatedSections True,
      SetDisplay Loading False]"
proof (intro conjI)
  have ok: "\<not> length (trim memoText) < 50"
    by (simp add: trim_memoText length_memoText)
  have b: "body \<lparr>ok = False, body = Some serverError\<rparr> = Some serverError"
    by simp
  show "analyzeDocument outage (lit ''memo'') None =
     [SetDisplay Loading True, OpenPdf (pdfUrl (lit ''memo'')), ReadPage 1,
      Fetch (PostInsights (lit ''memo'') memoText),
      Render NoInsightsGenerated, SetDisplay InsightsContainer True,
      Fetch (GetRelated (lit ''memo'') memoText 5),
      Render NoRelatedSections, SetDisplay RelatedSections True,
      SetDisplay Loading False]"
    using analyzeDocument_success [OF extractText_outage ok outage_replies(1) b
        displayInsights_serverError]
    by (simp add: showRelatedSections_outage showLoading_def)
qed (rule outage_replies)+

end
